theory Spec2Isabelle
  imports Complex_Main "HOL-Library.AList" "HOL-Library.Product_Lexorder"
begin

section \<open>JavaScript runtime operations used by the server\<close>

text \<open>
  \<^verbatim>\<open>Array.prototype.slice(start, end)\<close>: a negative index counts from the end of the
  array and is clamped at 0, a non-negative one is clamped at the length; the result holds
  the elements from the first index up to, and excluding, the second (none when the
  second is not beyond the first). An absent \<^verbatim>\<open>end\<close> is the length.
\<close>

definition rel_index :: "int \<Rightarrow> nat \<Rightarrow> nat" where
  "rel_index k len = (if k < 0 then nat (max (int len + k) 0) else min (nat k) len)"

definition slice :: "int \<Rightarrow> int option \<Rightarrow> 'a list \<Rightarrow> 'a list" where
  "slice start fin xs =
     (let len = length xs;
          k = rel_index start len;
          final = (case fin of None \<Rightarrow> len | Some e \<Rightarrow> rel_index e len)
      in take (final - k) (drop k xs))"

text \<open>
  \<^verbatim>\<open>a || d\<close> on an optional string: the default replaces undefined, null and the empty
  string.
\<close>

definition or_default :: "string option \<Rightarrow> string \<Rightarrow> string" where
  "or_default a d = (case a of None \<Rightarrow> d | Some s \<Rightarrow> if s = [] then d else s)"

text \<open>
  \<^verbatim>\<open>String.prototype.split\<close> with a one-character separator: the result is never
  empty, and the empty string splits into one empty piece. \<^verbatim>\<open>String.prototype.trim\<close>,
  like \<^verbatim>\<open>parseFloat\<close> and the URL parser, belongs to the runtime and is a parameter of
  the model.
\<close>

fun split_on :: "char \<Rightarrow> string \<Rightarrow> string list" where
  "split_on c [] = [[]]"
| "split_on c (x # xs) =
     (if x = c then [] # split_on c xs
      else (case split_on c xs of [] \<Rightarrow> [[x]] | w # ws \<Rightarrow> (x # w) # ws))"

text \<open>
  A thrown value: an \<^verbatim>\<open>Error\<close> instance with its message and name, or anything else.
\<close>

datatype js_error = JsError string string | NonError

text \<open>
  JavaScript numbers as far as \<^verbatim>\<open>parseFloat(s) >= 4.5\<close> needs them. \<^verbatim>\<open>parseFloat\<close>
  itself belongs to the runtime and is a parameter of the model.
\<close>

datatype number = NaN | Finite rat | PosInfinity | NegInfinity

fun number_ge :: "number \<Rightarrow> rat \<Rightarrow> bool" where
  "number_ge NaN t = False"
| "number_ge (Finite q) t = (t \<le> q)"
| "number_ge PosInfinity t = True"
| "number_ge NegInfinity t = False"

text \<open>
  A plain object used as a dictionary: its own properties in creation order.
  \<^verbatim>\<open>Object.entries\<close> lists the properties whose key is an array index (the canonical
  decimal form of an integer below \<open>2^32 - 1\<close>) first, in ascending numeric order, and then
  the others in creation order. A read of a key that is no own property finds the member
  of that name that every object inherits from \<^verbatim>\<open>Object.prototype\<close>, if there is one;
  an assignment to \<^verbatim>\<open>__proto__\<close> of a value that is no object changes nothing.
\<close>

definition Object_prototype_names :: "string list" where
  "Object_prototype_names =
     [''constructor'', ''__defineGetter__'', ''__defineSetter__'', ''hasOwnProperty'',
      ''__lookupGetter__'', ''__lookupSetter__'', ''isPrototypeOf'', ''propertyIsEnumerable'',
      ''toString'', ''valueOf'', ''__proto__'', ''toLocaleString'']"

datatype 'a property = Own 'a | Inherited | Undefined

definition read_property :: "(string \<times> 'a) list \<Rightarrow> string \<Rightarrow> 'a property" where
  "read_property props k =
     (case map_of props k of
        Some v \<Rightarrow> Own v
      | None \<Rightarrow> if k \<in> set Object_prototype_names then Inherited else Undefined)"

definition assign_property :: "string \<Rightarrow> 'a \<Rightarrow> (string \<times> 'a) list \<Rightarrow> (string \<times> 'a) list" where
  "assign_property k v props = AList.update k v props"

definition digit_value :: "char \<Rightarrow> int" where
  "digit_value c = of_char c - 48"

definition is_digit :: "char \<Rightarrow> bool" where
  "is_digit c = (48 \<le> (of_char c :: int) \<and> (of_char c :: int) \<le> 57)"

definition decimal :: "string \<Rightarrow> int" where
  "decimal s = foldl (\<lambda>n c. 10 * n + digit_value c) 0 s"

definition array_index :: "string \<Rightarrow> int option" where
  "array_index s =
     (if s \<noteq> [] \<and> list_all is_digit s \<and> (s = ''0'' \<or> hd s \<noteq> CHR ''0'') \<and> decimal s \<le> 4294967294
      then Some (decimal s) else None)"

definition Object_entries :: "(string \<times> 'a) list \<Rightarrow> (string \<times> 'a) list" where
  "Object_entries props =
     sort_key (\<lambda>p. the (array_index (fst p))) (filter (\<lambda>p. array_index (fst p) \<noteq> None) props)
     @ filter (\<lambda>p. array_index (fst p) = None) props"

text \<open>
  \<^verbatim>\<open>Array.prototype.sort(compare)\<close> is stable; for a comparator that is a consistent
  ordering its result is determined, and insertion sort computes it. For any other
  comparator the order is left to the engine.
\<close>

fun insert_by :: "('a \<Rightarrow> 'a \<Rightarrow> int) \<Rightarrow> 'a \<Rightarrow> 'a list \<Rightarrow> 'a list" where
  "insert_by cmp x [] = [x]"
| "insert_by cmp x (y # ys) = (if cmp x y \<le> 0 then x # y # ys else y # insert_by cmp x ys)"

definition js_sort :: "('a \<Rightarrow> 'a \<Rightarrow> int) \<Rightarrow> 'a list \<Rightarrow> 'a list" where
  "js_sort cmp xs = foldr (insert_by cmp) xs []"

text \<open>JSON values; an object is the list of its properties.\<close>

datatype json =
    JNull
  | JBool bool
  | JNumber int
  | JString string
  | JArray "json list"
  | JObject "(string \<times> json) list"

type_synonym object = "(string \<times> json) list"

record Track =
  track_name :: string
  artist :: string
  playedAt :: "string option"

datatype SpotifyResult =
    SSuccess (topArtists: "string list") (topGenres: "string list") (recentTracks: "Track list")
  | SError string
  | SNotProvided

section \<open>Profile normalizer (server/letterboxd.ts)\<close>

record LetterboxdRating =
  title :: string
  rating :: string
  year :: string
  genres :: "string list"

datatype LetterboxdResult =
    LSuccess (recentRatings: "LetterboxdRating list") (favoriteGenres: "string list")
             (favoriteFilms: "string list")
  | LError string
  | LNotProvided

text \<open>
  The collaborators of the normalizer: the URL parser of the runtime (\<open>None\<close> when
  \<^verbatim>\<open>new URL\<close> throws), the HTTP client, and the XML parser, whose result is described by
  what the code reads of it: nothing at \<^verbatim>\<open>result?.rss?.channel?.[0]\<close>, or the items of
  that channel (\<^verbatim>\<open>channel.item || []\<close>). An item gives, for each of the four elements the
  code reads, the text of its first occurrence if any; \<open>Unreadable\<close> is an item on which
  reading them throws.
\<close>

record url =
  hostname :: string
  pathname :: string

datatype fetched = FetchFailed js_error | Fetched string

datatype rss_item =
    Item (filmTitle: "string option") (filmYear: "string option")
         (memberRating: "string option") (filmGenres: "string option")
  | Unreadable

datatype xml = XmlError | NoChannel | Channel "rss_item list"

definition validateLetterboxdUrl :: "(string \<Rightarrow> url option) \<Rightarrow> string \<Rightarrow> bool" where
  "validateLetterboxdUrl parseURL u =
     (case parseURL u of
        None \<Rightarrow> False
      | Some parsed \<Rightarrow>
          hostname parsed = ''letterboxd.com'' \<and> length (split_on CHR ''/'' (pathname parsed)) \<ge> 2)"

text \<open>
  \<^verbatim>\<open>path.split('/')[1]\<close>; the result is used in a template literal only, where a missing
  element prints as \<^verbatim>\<open>undefined\<close>.
\<close>

definition extractUsername :: "(string \<Rightarrow> url option) \<Rightarrow> string \<Rightarrow> js_error + string" where
  "extractUsername parseURL u =
     (case parseURL u of
        None \<Rightarrow> Inl (JsError ''Invalid URL'' ''TypeError'')
      | Some parsed \<Rightarrow>
          Inr (case drop 1 (split_on CHR ''/'' (pathname parsed)) of
                 [] \<Rightarrow> ''undefined'' | x # _ \<Rightarrow> x))"

text \<open>The genres of an item, counted before the item's title is looked at.\<close>

definition item_genres :: "(string \<Rightarrow> string) \<Rightarrow> rss_item \<Rightarrow> string list" where
  "item_genres trim item =
     (case item of
        Unreadable \<Rightarrow> []
      | Item t y r g \<Rightarrow> (case g of None \<Rightarrow> [] | Some s \<Rightarrow> map trim (split_on CHR '','' s)))"

text \<open>
  \<^verbatim>\<open>genreFrequency[genre] = (genreFrequency[genre] || 0) + 1\<close> on a dictionary that
  starts empty. A value of the dictionary is a number or, once the read has found an
  inherited member, a string that is no numeral: the member is truthy, and adding 1 to it
  or to such a string concatenates.
\<close>

datatype tally = Count nat | NotANumber

definition plus_one :: "tally property \<Rightarrow> tally" where
  "plus_one v =
     (case v of
        Own (Count n) \<Rightarrow> Count (n + 1)
      | Own NotANumber \<Rightarrow> NotANumber
      | Inherited \<Rightarrow> NotANumber
      | Undefined \<Rightarrow> Count 1)"

definition count_genre :: "string \<Rightarrow> (string \<times> tally) list \<Rightarrow> (string \<times> tally) list" where
  "count_genre genre freq =
     (if genre = ''__proto__'' then freq
      else assign_property genre (plus_one (read_property freq genre)) freq)"

text \<open>
  The comparator \<^verbatim>\<open>([, a], [, b]) => b - a\<close>: on a string that is no numeral the
  difference is NaN, which \<^verbatim>\<open>sort\<close> reads as 0. It is a consistent ordering when all
  values are numbers; otherwise the sorted order is the engine's, a parameter.
\<close>

definition by_count_descending :: "string \<times> tally \<Rightarrow> string \<times> tally \<Rightarrow> int" where
  "by_count_descending a b =
     (case (snd a, snd b) of (Count x, Count y) \<Rightarrow> int y - int x | _ \<Rightarrow> 0)"

definition is_count :: "tally \<Rightarrow> bool" where
  "is_count v = (case v of Count n \<Rightarrow> True | NotANumber \<Rightarrow> False)"

definition sort_entries ::
  "((string \<times> tally) list \<Rightarrow> (string \<times> tally) list) \<Rightarrow> (string \<times> tally) list
     \<Rightarrow> (string \<times> tally) list" where
  "sort_entries engine_sort entries =
     (if list_all (\<lambda>e. is_count (snd e)) entries then js_sort by_count_descending entries
      else engine_sort entries)"

definition processItem :: "(string \<Rightarrow> string) \<Rightarrow> rss_item \<Rightarrow> LetterboxdRating option" where
  "processItem trim item =
     (case item of
        Unreadable \<Rightarrow> None
      | Item t y r g \<Rightarrow>
          (case t of
             None \<Rightarrow> None
           | Some film \<Rightarrow>
               if film = [] then None
               else Some \<lparr>title = film,
                          rating = (case r of
                                      None \<Rightarrow> ''Watched''
                                    | Some x \<Rightarrow> if x = [] then ''Watched'' else x @ ''/5''),
                          year = or_default y [],
                          genres = item_genres trim item\<rparr>))"

definition genreFrequency :: "(string \<Rightarrow> string) \<Rightarrow> rss_item list \<Rightarrow> (string \<times> tally) list" where
  "genreFrequency trim items =
     fold count_genre (concat (map (item_genres trim) (slice 0 (Some 20) items))) []"

definition processed :: "(string \<Rightarrow> string) \<Rightarrow> rss_item list \<Rightarrow> LetterboxdRating list" where
  "processed trim items = List.map_filter (processItem trim) (slice 0 (Some 20) items)"

definition favoriteFilms_of :: "(string \<Rightarrow> number) \<Rightarrow> LetterboxdRating list \<Rightarrow> string list" where
  "favoriteFilms_of parseFloat ratings =
     slice 0 (Some 5) (map title (filter (\<lambda>r. number_ge (parseFloat (rating r)) (9 / 2)) ratings))"

definition favoriteGenres_of ::
  "((string \<times> tally) list \<Rightarrow> (string \<times> tally) list) \<Rightarrow> (string \<times> tally) list \<Rightarrow> string list" where
  "favoriteGenres_of engine_sort freq =
     map fst (slice 0 (Some 5) (sort_entries engine_sort (Object_entries freq)))"

definition profile_of_feed ::
  "(string \<Rightarrow> number) \<Rightarrow> (string \<Rightarrow> string)
     \<Rightarrow> ((string \<times> tally) list \<Rightarrow> (string \<times> tally) list) \<Rightarrow> rss_item list
     \<Rightarrow> LetterboxdResult" where
  "profile_of_feed parseFloat trim engine_sort items =
     (if length items = 0 then LError ''No activity found in profile''
      else if length (processed trim items) = 0 then LError ''No valid ratings found in profile''
      else LSuccess (slice 0 (Some 10) (processed trim items))
                    (favoriteGenres_of engine_sort (genreFrequency trim items))
                    (favoriteFilms_of parseFloat (processed trim items)))"

definition rssUrl :: "string \<Rightarrow> string" where
  "rssUrl username = ''https://letterboxd.com/'' @ username @ ''/rss/''"

text \<open>
  The body of the \<^verbatim>\<open>try\<close> block: \<open>Inl\<close> is a value thrown inside it. Logging is
  left out.
\<close>

definition getLetterboxdProfile_try ::
  "(string \<Rightarrow> url option) \<Rightarrow> (string \<Rightarrow> fetched) \<Rightarrow> (string \<Rightarrow> xml) \<Rightarrow> (string \<Rightarrow> number)
     \<Rightarrow> (string \<Rightarrow> string) \<Rightarrow> ((string \<times> tally) list \<Rightarrow> (string \<times> tally) list)
     \<Rightarrow> string \<Rightarrow> js_error + LetterboxdResult" where
  "getLetterboxdProfile_try parseURL axios_get parseXml parseFloat trim engine_sort u =
     (if \<not> validateLetterboxdUrl parseURL u then Inr (LError ''Invalid Letterboxd URL format'')
      else
        (case extractUsername parseURL u of
           Inl e \<Rightarrow> Inl e
         | Inr username \<Rightarrow>
             (case axios_get (rssUrl username) of
                FetchFailed e \<Rightarrow> Inl e
              | Fetched data \<Rightarrow>
                  (case parseXml data of
                     XmlError \<Rightarrow> Inr (LError ''Invalid XML response from Letterboxd'')
                   | NoChannel \<Rightarrow> Inr (LError ''Invalid RSS data structure'')
                   | Channel items \<Rightarrow>
                       Inr (profile_of_feed parseFloat trim engine_sort items)))))"

text \<open>
  The function with its \<^verbatim>\<open>catch\<close>: \<open>Inl\<close> would be a rejection of the promise it
  returns.
\<close>

definition getLetterboxdProfile ::
  "(string \<Rightarrow> url option) \<Rightarrow> (string \<Rightarrow> fetched) \<Rightarrow> (string \<Rightarrow> xml) \<Rightarrow> (string \<Rightarrow> number)
     \<Rightarrow> (string \<Rightarrow> string) \<Rightarrow> ((string \<times> tally) list \<Rightarrow> (string \<times> tally) list)
     \<Rightarrow> string \<Rightarrow> js_error + LetterboxdResult" where
  "getLetterboxdProfile parseURL axios_get parseXml parseFloat trim engine_sort u =
     (case getLetterboxdProfile_try parseURL axios_get parseXml parseFloat trim engine_sort u of
        Inr result \<Rightarrow> Inr result
      | Inl e \<Rightarrow>
          Inr (LError (case e of
                         JsError msg nm \<Rightarrow> msg @ '' ('' @ nm @ '')''
                       | NonError \<Rightarrow> ''Unknown error occurred'')))"

section \<open>Persistence layer (server/storage.ts over the schema)\<close>

text \<open>
  The \<^verbatim>\<open>users\<close> and \<^verbatim>\<open>messages\<close> tables, each a list of rows in insertion order with
  a serial primary key. \<^verbatim>\<open>getMessages\<close> selects the rows of one user with no ORDER BY,
  and the model returns them in table order. \<^verbatim>\<open>twinPersonality\<close> is a JSON column: an
  object or null.

  The database is a collaborator, and it may refuse a call: the connection is lost, or the
  statement is one it does not accept (PostgreSQL refuses a text value with a NUL
  character). \<open>rejects\<close> says which calls this database refuses and with which error; the
  promise of a refused call is rejected with that error and no row changes. An accepted
  call does what the table operations below say. No handler makes the same call twice in
  one request, so a function of the call describes every pattern of refusals in it.
\<close>

record user =
  u_id :: nat
  name :: string
  spotifyUrl :: "string option"
  letterboxdUrl :: "string option"
  bio :: string
  letterboxdData :: LetterboxdResult
  spotifyData :: SpotifyResult
  twinPersonality :: "object option"

record message =
  m_id :: nat
  userId :: nat
  content :: string
  fromUser :: bool

record InsertUser =
  ins_name :: string
  ins_letterboxdUrl :: "string option"
  ins_spotifyUrl :: "string option"
  ins_bio :: string

datatype db_call =
    SelectUser nat
  | InsertUserRow InsertUser
  | UpdateUserRow nat InsertUser LetterboxdResult SpotifyResult
  | UpdateTwin nat object
  | SelectMessages nat
  | InsertMessage nat string bool

record storage =
  users :: "user list"
  messages :: "message list"
  next_user_id :: nat
  next_message_id :: nat
  rejects :: "db_call \<Rightarrow> js_error option"

definition getUser :: "storage \<Rightarrow> nat \<Rightarrow> js_error + user option" where
  "getUser st i =
     (case rejects st (SelectUser i) of
        Some e \<Rightarrow> Inl e
      | None \<Rightarrow> Inr (find (\<lambda>u. u_id u = i) (users st)))"

definition getMessages :: "storage \<Rightarrow> nat \<Rightarrow> js_error + message list" where
  "getMessages st uid =
     (case rejects st (SelectMessages uid) of
        Some e \<Rightarrow> Inl e
      | None \<Rightarrow> Inr (filter (\<lambda>m. userId m = uid) (messages st)))"

text \<open>The row that \<^verbatim>\<open>insert(messages).values({ userId, content, fromUser }).returning()\<close> yields.\<close>

definition inserted_message :: "storage \<Rightarrow> nat \<Rightarrow> string \<Rightarrow> bool \<Rightarrow> message" where
  "inserted_message st uid txt fromU =
     \<lparr>m_id = next_message_id st, userId = uid, content = txt, fromUser = fromU\<rparr>"

definition addMessage :: "storage \<Rightarrow> nat \<Rightarrow> string \<Rightarrow> bool \<Rightarrow> js_error + message \<times> storage" where
  "addMessage st uid txt fromU =
     (case rejects st (InsertMessage uid txt fromU) of
        Some e \<Rightarrow> Inl e
      | None \<Rightarrow>
          (let m = inserted_message st uid txt fromU
           in Inr (m, st\<lparr>messages := messages st @ [m],
                        next_message_id := Suc (next_message_id st)\<rparr>)))"

text \<open>
  \<^verbatim>\<open>createUser\<close> and \<^verbatim>\<open>updateUser\<close> store \<^verbatim>\<open>insertUser.spotifyUrl || null\<close> and
  \<^verbatim>\<open>insertUser.letterboxdUrl || null\<close>; the two update functions set columns of the row
  with the given id and throw when there is none.
\<close>

definition truthy :: "string option \<Rightarrow> string option" where
  "truthy a = (case a of None \<Rightarrow> None | Some s \<Rightarrow> if s = [] then None else Some s)"

definition createUser :: "storage \<Rightarrow> InsertUser \<Rightarrow> js_error + user \<times> storage" where
  "createUser st insertUser =
     (case rejects st (InsertUserRow insertUser) of
        Some e \<Rightarrow> Inl e
      | None \<Rightarrow>
          (let u = \<lparr>u_id = next_user_id st,
                     name = ins_name insertUser,
                     spotifyUrl = truthy (ins_spotifyUrl insertUser),
                     letterboxdUrl = truthy (ins_letterboxdUrl insertUser),
                     bio = ins_bio insertUser,
                     letterboxdData = LNotProvided,
                     spotifyData = SNotProvided,
                     twinPersonality = None\<rparr>
           in Inr (u, st\<lparr>users := users st @ [u], next_user_id := Suc (next_user_id st)\<rparr>)))"

definition update_row :: "nat \<Rightarrow> (user \<Rightarrow> user) \<Rightarrow> storage \<Rightarrow> js_error + user \<times> storage" where
  "update_row i f st =
     (case find (\<lambda>u. u_id u = i) (users st) of
        None \<Rightarrow> Inl (JsError ''User not found'' ''Error'')
      | Some u \<Rightarrow>
          Inr (f u, st\<lparr>users := map (\<lambda>v. if u_id v = i then f v else v) (users st)\<rparr>))"

definition updateUser ::
  "storage \<Rightarrow> nat \<Rightarrow> InsertUser \<Rightarrow> LetterboxdResult \<Rightarrow> SpotifyResult \<Rightarrow> js_error + user \<times> storage" where
  "updateUser st i insertUser lb sp =
     (case rejects st (UpdateUserRow i insertUser lb sp) of
        Some e \<Rightarrow> Inl e
      | None \<Rightarrow>
          update_row i
            (\<lambda>u. u\<lparr>name := ins_name insertUser,
                   bio := ins_bio insertUser,
                   spotifyUrl := truthy (ins_spotifyUrl insertUser),
                   letterboxdUrl := truthy (ins_letterboxdUrl insertUser),
                   letterboxdData := lb,
                   spotifyData := sp\<rparr>) st)"

definition updateUserTwin :: "storage \<Rightarrow> nat \<Rightarrow> object \<Rightarrow> js_error + user \<times> storage" where
  "updateUserTwin st i personality =
     (case rejects st (UpdateTwin i personality) of
        Some e \<Rightarrow> Inl e
      | None \<Rightarrow> update_row i (\<lambda>u. u\<lparr>twinPersonality := Some personality\<rparr>) st)"

section \<open>Context window (the chat route, lines 305-309)\<close>

text \<open>
  \<^verbatim>\<open>messages.slice(-5).map(m => `${m.fromUser ? "User" : user.name}: ${m.content}`)\<close>
\<close>

definition formatTurn :: "string \<Rightarrow> message \<Rightarrow> string" where
  "formatTurn twinName m = (if fromUser m then ''User'' else twinName) @ '': '' @ content m"

definition selectContext :: "string \<Rightarrow> message list \<Rightarrow> string list" where
  "selectContext twinName msgs = map (formatTurn twinName) (slice (- 5) None msgs)"

section \<open>Generative model service\<close>

text \<open>
  The service is an external collaborator, and its replies are inputs of the model. A
  prompt is a fixed template over a few values, and a request holds these values: for the
  two completion calls the bio (and name), the movie and music parts the template prints
  (nothing unless the source's status is \<^verbatim>\<open>success\<close>) and, for the second call, the
  insight text; for the streaming call the persona, the twin's name, the new message and
  the context lines. A completion call is rejected or replies with the content of its first
  choice, a string or null. A streaming call either is refused (\<^verbatim>\<open>create\<close> rejects) or
  opens a finite stream of chunks; each chunk carries \<^verbatim>\<open>choices[0]?.delta?.content\<close>, a
  string or nothing, and the stream ends with its natural end or with an error.
\<close>

datatype completion = Rejected js_error | Replied "string option"

type_synonym movie_part = "((string \<times> string) list \<times> string list \<times> string list) option"
type_synonym music_part = "(string list \<times> string list \<times> (string \<times> string) list) option"

definition movie_part :: "LetterboxdResult option \<Rightarrow> movie_part" where
  "movie_part lb =
     (case lb of
        Some (LSuccess rr fg ff) \<Rightarrow> Some (map (\<lambda>r. (title r, rating r)) rr, fg, ff)
      | _ \<Rightarrow> None)"

definition music_part :: "SpotifyResult option \<Rightarrow> music_part" where
  "music_part sp =
     (case sp of
        Some (SSuccess ta tg rt) \<Rightarrow>
          Some (ta, tg, slice 0 (Some 5) (map (\<lambda>t. (track_name t, artist t)) rt))
      | _ \<Rightarrow> None)"

datatype completion_request =
    InsightRequest string movie_part music_part
  | PersonaRequest string string movie_part music_part string

datatype stream = EndOfStream | Interrupted | Chunk "string option" stream

datatype upstream = Refused | Opened stream

record chat_request =
  req_persona :: object
  req_name :: string
  req_message :: string
  req_context :: "string list"

section \<open>Persona synthesizer (server/openai.ts)\<close>

text \<open>
  \<^verbatim>\<open>analyzePersonality\<close> returns \<^verbatim>\<open>response.choices[0].message.content || ""\<close>.
  \<^verbatim>\<open>generateTwinPersonality\<close> parses \<^verbatim>\<open>content || "{}"\<close> and returns
  \<^verbatim>\<open>{ ...data, personalityInsight }\<close>. \<^verbatim>\<open>JSON.parse\<close> belongs to the runtime and is a
  parameter, except on the literal \<^verbatim>\<open>{}\<close>, which is the empty object; the reply is
  requested as a JSON object, so a text that parses is an object.
\<close>

definition analyzePersonality ::
  "(completion_request \<Rightarrow> completion) \<Rightarrow> string \<Rightarrow> LetterboxdResult option \<Rightarrow> SpotifyResult option
     \<Rightarrow> js_error + string" where
  "analyzePersonality create b lb sp =
     (case create (InsightRequest b (movie_part lb) (music_part sp)) of
        Rejected e \<Rightarrow> Inl e
      | Replied c \<Rightarrow> Inr (or_default c []))"

definition JSON_parse :: "(string \<Rightarrow> js_error + object) \<Rightarrow> string \<Rightarrow> js_error + object" where
  "JSON_parse parse s = (if s = ''{}'' then Inr [] else parse s)"

definition generateTwinPersonality ::
  "(completion_request \<Rightarrow> completion) \<Rightarrow> (string \<Rightarrow> js_error + object) \<Rightarrow> string \<Rightarrow> string
     \<Rightarrow> LetterboxdResult option \<Rightarrow> SpotifyResult option \<Rightarrow> js_error + object" where
  "generateTwinPersonality create parse nm b lb sp =
     (case analyzePersonality create b lb sp of
        Inl e \<Rightarrow> Inl e
      | Inr personalityInsight \<Rightarrow>
          (case create (PersonaRequest nm b (movie_part lb) (music_part sp) personalityInsight) of
             Rejected e \<Rightarrow> Inl e
           | Replied c \<Rightarrow>
               (case JSON_parse parse (or_default c ''{}'') of
                  Inl e \<Rightarrow> Inl e
                | Inr data \<Rightarrow>
                    Inr (AList.update ''personalityInsight'' (JString personalityInsight) data))))"

section \<open>Conversation engine (server/openai.ts, streamChatResponse)\<close>

text \<open>
  The prompt template evaluates \<^verbatim>\<open>twinPersonality.interests.join(", ")\<close> and
  \<^verbatim>\<open>twinPersonality.traits.join(", ")\<close>: a TypeError unless the persona is an object
  whose \<^verbatim>\<open>interests\<close> and \<^verbatim>\<open>traits\<close> are arrays. The generator throws on its
  first resumption when the template throws or the call is refused.
\<close>

definition is_array_field :: "object \<Rightarrow> string \<Rightarrow> bool" where
  "is_array_field obj k = (case map_of obj k of Some (JArray _) \<Rightarrow> True | _ \<Rightarrow> False)"

definition streamChatResponse_open ::
  "(chat_request \<Rightarrow> upstream) \<Rightarrow> object option \<Rightarrow> string \<Rightarrow> string \<Rightarrow> string list \<Rightarrow> stream option" where
  "streamChatResponse_open create twin nm msg ctx =
     (case twin of
        None \<Rightarrow> None
      | Some p \<Rightarrow>
          if is_array_field p ''interests'' \<and> is_array_field p ''traits'' then
            (case create \<lparr>req_persona = p, req_name = nm, req_message = msg, req_context = ctx\<rparr> of
               Refused \<Rightarrow> None
             | Opened s \<Rightarrow> Some s)
          else None)"

text \<open>
  One resumption of the generator: it requests chunks from the stream until one has
  non-empty content, which it yields; it returns at the natural end and throws at an
  error. The number is how many chunks it requested.
\<close>

datatype resumed = Yielded string stream | Returned | Threw

fun streamChatResponse_next :: "stream \<Rightarrow> nat \<times> resumed" where
  "streamChatResponse_next EndOfStream = (1, Returned)"
| "streamChatResponse_next Interrupted = (1, Threw)"
| "streamChatResponse_next (Chunk c rest) =
     (case c of
        Some s \<Rightarrow>
          if s \<noteq> [] then (1, Yielded s rest)
          else (case streamChatResponse_next rest of (n, r) \<Rightarrow> (Suc n, r))
      | None \<Rightarrow> (case streamChatResponse_next rest of (n, r) \<Rightarrow> (Suc n, r)))"

section \<open>The chat route (POST /api/users/:id/messages)\<close>

text \<open>
  The chunked response: what the handler wrote, in order, and whether it ended. The
  control line is \<^verbatim>\<open>JSON.stringify({ userMessage }) + '\n'\<close>, a raw part is one
  \<^verbatim>\<open>res.write(chunk)\<close>, the error record is
  \<^verbatim>\<open>JSON.stringify({ error: "Failed to generate response" })\<close>, a JSON message is the
  body of \<^verbatim>\<open>res.status(code).json({ message })\<close>. The consumer may disconnect:
  \<open>hangup = Some k\<close> is a consumer that leaves once it holds \<open>k\<close> parts. Node drops a
  write to a closed connection without throwing, so \<open>received\<close> stops growing while
  \<open>body\<close> records every write the handler made. The first write sends the head of the
  response. The two headers the handler sets before its first write are left out.
\<close>

datatype body_part = ControlRecord message | RawText string | ErrorRecord | JsonMessage string

record response =
  statusCode :: nat
  headersSent :: bool
  body :: "body_part list"
  writableEnded :: bool
  hangup :: "nat option"
  received :: "body_part list"

text \<open>
  The handler's effects in program order (a history variable of the model): rows inserted,
  parts written, the end of the response, and chunks requested from the service.
  \<open>uncaught\<close> is the error that leaves the handler, if one does: the handler's promise is
  rejected with it, and the response stays as it is.
\<close>

datatype effect = DbInsert message | Sent body_part | Finished | Requested

record world =
  store :: storage
  res :: response
  trace :: "effect list"
  uncaught :: "js_error option"

definition connected :: "response \<Rightarrow> bool" where
  "connected r = (case hangup r of None \<Rightarrow> True | Some k \<Rightarrow> length (received r) < k)"

definition deliver :: "body_part \<Rightarrow> response \<Rightarrow> response" where
  "deliver p r = r\<lparr>headersSent := True, body := body r @ [p],
                  received := (if connected r then received r @ [p] else received r)\<rparr>"

definition res_write :: "body_part \<Rightarrow> world \<Rightarrow> world" where
  "res_write p w = w\<lparr>res := deliver p (res w), trace := trace w @ [Sent p]\<rparr>"

definition res_end :: "body_part option \<Rightarrow> world \<Rightarrow> world" where
  "res_end last_part w =
     (let w' = (case last_part of None \<Rightarrow> w | Some p \<Rightarrow> res_write p w)
      in w'\<lparr>res := (res w')\<lparr>headersSent := True, writableEnded := True\<rparr>,
            trace := trace w' @ [Finished]\<rparr>)"

text \<open>
  \<^verbatim>\<open>res.status(code).json({ message })\<close>: Express assigns the status code, then sets
  the content type of the body, and Node throws from \<^verbatim>\<open>setHeader\<close> once the head of
  the response has been sent.
\<close>

definition headers_sent_error :: js_error where
  "headers_sent_error = JsError ''Cannot set headers after they are sent to the client'' ''Error''"

definition res_json :: "nat \<Rightarrow> string \<Rightarrow> world \<Rightarrow> world" where
  "res_json code msg w =
     (let w' = w\<lparr>res := (res w)\<lparr>statusCode := code\<rparr>\<rparr>
      in if headersSent (res w') then w'\<lparr>uncaught := Some headers_sent_error\<rparr>
         else res_end (Some (JsonMessage msg)) w')"

definition db_addMessage :: "nat \<Rightarrow> string \<Rightarrow> bool \<Rightarrow> world \<Rightarrow> js_error + message \<times> world" where
  "db_addMessage uid txt fromU w =
     (case addMessage (store w) uid txt fromU of
        Inl e \<Rightarrow> Inl e
      | Inr (m, st') \<Rightarrow> Inr (m, w\<lparr>store := st', trace := trace w @ [DbInsert m]\<rparr>))"

definition requested :: "nat \<Rightarrow> world \<Rightarrow> world" where
  "requested n w = w\<lparr>trace := trace w @ replicate n Requested\<rparr>"

lemma streamChatResponse_next_smaller:
  "streamChatResponse_next s = (n, Yielded chunk rest) \<Longrightarrow> size rest < size s"
  by (induction s arbitrary: n) (auto split: option.splits if_splits prod.splits)

text \<open>
  \<^verbatim>\<open>for await (const chunk of streamChatResponse(...)) { res.write(chunk); fullResponse += chunk; }\<close>
  The flag says whether the loop ended normally (the generator returned) or by the
  generator's throw.
\<close>

function for_await :: "stream \<Rightarrow> world \<Rightarrow> string \<Rightarrow> bool \<times> world \<times> string" where
  "for_await s w fullResponse =
     (case streamChatResponse_next s of
        (n, Yielded chunk rest) \<Rightarrow>
          for_await rest (res_write (RawText chunk) (requested n w)) (fullResponse @ chunk)
      | (n, Returned) \<Rightarrow> (True, requested n w, fullResponse)
      | (n, Threw) \<Rightarrow> (False, requested n w, fullResponse))"
  by pat_completeness auto
termination
  by (relation "measure (\<lambda>(s, w, f). size s)")
     (auto dest: streamChatResponse_next_smaller [OF sym])

definition fresh_response :: "nat option \<Rightarrow> response" where
  "fresh_response h =
     \<lparr>statusCode = 200, headersSent = False, body = [], writableEnded = False, hangup = h,
      received = []\<rparr>"

text \<open>\<^verbatim>\<open>error instanceof Error ? error.message : "An error occurred"\<close>\<close>

definition error_message :: "js_error \<Rightarrow> string" where
  "error_message e = (case e of JsError msg nm \<Rightarrow> msg | NonError \<Rightarrow> ''An error occurred'')"

text \<open>
  The inner catch (lines 327-331):
  \<^verbatim>\<open>if (res.writableEnded) return; res.end(JSON.stringify({ error: ... }))\<close>,
  and the outer catch (lines 332-337):
  \<^verbatim>\<open>if (res.writableEnded) return; res.status(400).json({ message })\<close>.
\<close>

definition on_stream_error :: "world \<Rightarrow> world" where
  "on_stream_error w = (if writableEnded (res w) then w else res_end (Some ErrorRecord) w)"

definition on_error :: "js_error \<Rightarrow> world \<Rightarrow> world" where
  "on_error e w = (if writableEnded (res w) then w else res_json 400 (error_message e) w)"

text \<open>
  The handler. The outer \<^verbatim>\<open>try\<close> holds the three database calls before the stream;
  the inner one holds the loop and the insert of the twin's turn.
\<close>

definition chat_route ::
  "(chat_request \<Rightarrow> upstream) \<Rightarrow> nat option \<Rightarrow> storage \<Rightarrow> nat \<Rightarrow> string \<Rightarrow> world" where
  "chat_route create h st uid txt =
     (let w = \<lparr>store = st, res = fresh_response h, trace = [], uncaught = None\<rparr> in
      case getUser st uid of
        Inl e \<Rightarrow> on_error e w
      | Inr None \<Rightarrow> res_json 404 ''User not found'' w
      | Inr (Some u) \<Rightarrow>
          (case db_addMessage uid txt True w of
             Inl e \<Rightarrow> on_error e w
           | Inr (userMessage, w1) \<Rightarrow>
               let w2 = res_write (ControlRecord userMessage) w1
               in (case getMessages (store w2) uid of
                     Inl e \<Rightarrow> on_error e w2
                   | Inr msgs \<Rightarrow>
                       let ctx = selectContext (name u) msgs
                       in (case streamChatResponse_open create (twinPersonality u) (name u) txt ctx of
                             None \<Rightarrow> on_stream_error w2
                           | Some s \<Rightarrow>
                               (case for_await s w2 [] of
                                  (True, w3, fullResponse) \<Rightarrow>
                                    (case db_addMessage uid fullResponse False w3 of
                                       Inl e \<Rightarrow> on_stream_error w3
                                     | Inr (twinMessage, w4) \<Rightarrow> res_end None w4)
                                | (False, w3, fullResponse) \<Rightarrow> on_stream_error w3)))))"

section \<open>The user creation route (POST /api/users)\<close>

text \<open>
  The handler on a body that passed \<^verbatim>\<open>insertUserSchema\<close>. Its \<^verbatim>\<open>catch\<close> answers 400
  with the error's message (\<open>Inl\<close>); otherwise it answers with the final user row.
\<close>

record services =
  sv_parseURL :: "string \<Rightarrow> url option"
  sv_axios_get :: "string \<Rightarrow> fetched"
  sv_parseXml :: "string \<Rightarrow> xml"
  sv_parseFloat :: "string \<Rightarrow> number"
  sv_trim :: "string \<Rightarrow> string"
  sv_sort :: "(string \<times> tally) list \<Rightarrow> (string \<times> tally) list"
  completions_create :: "completion_request \<Rightarrow> completion"
  parse_json :: "string \<Rightarrow> js_error + object"

definition only_success :: "LetterboxdResult \<Rightarrow> LetterboxdResult option" where
  "only_success lb = (case lb of LSuccess rr fg ff \<Rightarrow> Some lb | _ \<Rightarrow> None)"

definition letterboxd_integration :: "services \<Rightarrow> InsertUser \<Rightarrow> js_error + LetterboxdResult" where
  "letterboxd_integration sv userData =
     (case truthy (ins_letterboxdUrl userData) of
        None \<Rightarrow> Inr LNotProvided
      | Some link \<Rightarrow>
          getLetterboxdProfile (sv_parseURL sv) (sv_axios_get sv) (sv_parseXml sv) (sv_parseFloat sv)
            (sv_trim sv) (sv_sort sv) link)"

definition create_user_route :: "services \<Rightarrow> storage \<Rightarrow> InsertUser \<Rightarrow> storage \<times> (string + user)" where
  "create_user_route sv st userData =
     (case createUser st userData of
        Inl e \<Rightarrow> (st, Inl (error_message e))
      | Inr (u, st1) \<Rightarrow>
          (case letterboxd_integration sv userData of
             Inl e \<Rightarrow> (st1, Inl (error_message e))
           | Inr lb \<Rightarrow>
               (case updateUser st1 (u_id u) userData lb SNotProvided of
                  Inl e \<Rightarrow> (st1, Inl (error_message e))
                | Inr (updatedUser, st2) \<Rightarrow>
                    (case generateTwinPersonality (completions_create sv) (parse_json sv)
                            (ins_name userData) (ins_bio userData) (only_success lb) None of
                       Inl e \<Rightarrow> (st2, Inl (error_message e))
                     | Inr twin \<Rightarrow>
                         (case updateUserTwin st2 (u_id u) twin of
                            Inl e \<Rightarrow> (st2, Inl (error_message e))
                          | Inr (finalUser, st3) \<Rightarrow> (st3, Inr finalUser))))))"

section \<open>Vocabulary of the properties\<close>

text \<open>
  What a stream will deliver if it is read to its end: its non-empty fragments in order,
  whether it ends naturally, and the effects of reading it through the loop above.
  \<open>raw_texts\<close> reads the raw parts back from a response body; a request has completed
  when its response ended with status 200 and holds no error record. \<open>opened_stream\<close> is
  the stream the handler reads: the one the service opens for the prompt values the handler
  computes, none when a database call before it is refused.
\<close>

fun fragments :: "stream \<Rightarrow> string list" where
  "fragments EndOfStream = []"
| "fragments Interrupted = []"
| "fragments (Chunk c rest) =
     (case c of Some s \<Rightarrow> if s \<noteq> [] then s # fragments rest else fragments rest
      | None \<Rightarrow> fragments rest)"

fun ends_normally :: "stream \<Rightarrow> bool" where
  "ends_normally EndOfStream = True"
| "ends_normally Interrupted = False"
| "ends_normally (Chunk c rest) = ends_normally rest"

fun stream_trace :: "stream \<Rightarrow> effect list" where
  "stream_trace EndOfStream = [Requested]"
| "stream_trace Interrupted = [Requested]"
| "stream_trace (Chunk c rest) =
     Requested # (case c of Some s \<Rightarrow> if s \<noteq> [] then [Sent (RawText s)] else [] | None \<Rightarrow> [])
       @ stream_trace rest"

fun raw_texts :: "body_part list \<Rightarrow> string list" where
  "raw_texts [] = []"
| "raw_texts (RawText s # ps) = s # raw_texts ps"
| "raw_texts (p # ps) = raw_texts ps"

definition completed :: "world \<Rightarrow> bool" where
  "completed w =
     (writableEnded (res w) \<and> statusCode (res w) = 200 \<and> ErrorRecord \<notin> set (body (res w)))"

definition opened_stream ::
  "(chat_request \<Rightarrow> upstream) \<Rightarrow> storage \<Rightarrow> user \<Rightarrow> nat \<Rightarrow> string \<Rightarrow> stream option" where
  "opened_stream create st u uid txt =
     (case addMessage st uid txt True of
        Inl e \<Rightarrow> None
      | Inr (m, st1) \<Rightarrow>
          (case getMessages st1 uid of
             Inl e \<Rightarrow> None
           | Inr msgs \<Rightarrow>
               streamChatResponse_open create (twinPersonality u) (name u) txt
                 (selectContext (name u) msgs)))"

text \<open>
  The state of the handler once the user's turn is inserted and the control record written.
\<close>

definition after_user_turn :: "nat option \<Rightarrow> storage \<Rightarrow> nat \<Rightarrow> string \<Rightarrow> world" where
  "after_user_turn h st uid txt =
     \<lparr>store = st\<lparr>messages := messages st @ [inserted_message st uid txt True],
                  next_message_id := Suc (next_message_id st)\<rparr>,
      res = deliver (ControlRecord (inserted_message st uid txt True)) (fresh_response h),
      trace = [DbInsert (inserted_message st uid txt True),
               Sent (ControlRecord (inserted_message st uid txt True))],
      uncaught = None\<rparr>"

text \<open>Stub collaborators and stores for the scenarios of the specification.\<close>

definition demo_user :: user where
  "demo_user = \<lparr>u_id = 7, name = ''Ada'', spotifyUrl = None, letterboxdUrl = None,
     bio = ''reads'', letterboxdData = LNotProvided, spotifyData = SNotProvided,
     twinPersonality = Some [(''interests'', JArray []), (''style'', JString ''dry''),
       (''traits'', JArray []), (''personalityInsight'', JString ''curious'')]\<rparr>"

definition demo_store :: storage where
  "demo_store =
     \<lparr>users = [demo_user], messages = [], next_user_id = 8, next_message_id = 12,
      rejects = (\<lambda>c. None)\<rparr>"

text \<open>
  A database that refuses, as PostgreSQL does, a message whose text holds a NUL character.
\<close>

definition refuses_nul :: "db_call \<Rightarrow> js_error option" where
  "refuses_nul c =
     (case c of
        InsertMessage uid txt fromU \<Rightarrow>
          if CHR 0x00 \<in> set txt
          then Some (JsError ''invalid byte sequence for encoding UTF8: 0x00'' ''error'')
          else None
      | _ \<Rightarrow> None)"

definition strict_store :: storage where
  "strict_store = demo_store\<lparr>rejects := refuses_nul\<rparr>"

definition hello_stream :: stream where
  "hello_stream = Chunk (Some ''Hel'') (Chunk (Some ''lo'') (Chunk (Some '' there'') EndOfStream))"

fun requests_after_sent :: "nat \<Rightarrow> effect list \<Rightarrow> nat" where
  "requests_after_sent 0 tr = length (filter (\<lambda>e. e = Requested) tr)"
| "requests_after_sent (Suc k) [] = 0"
| "requests_after_sent (Suc k) (e # tr) =
     (case e of Sent _ \<Rightarrow> requests_after_sent k tr | _ \<Rightarrow> requests_after_sent (Suc k) tr)"

fun chunks :: "stream \<Rightarrow> nat" where
  "chunks EndOfStream = 0"
| "chunks Interrupted = 0"
| "chunks (Chunk c rest) = Suc (chunks rest)"

definition broken_stream :: stream where
  "broken_stream = Chunk (Some ''Hel'') Interrupted"

definition log8 :: "message list" where
  "log8 =
     [\<lparr>m_id = 1, userId = 7, content = ''q1'', fromUser = True\<rparr>,
      \<lparr>m_id = 2, userId = 7, content = ''a2'', fromUser = False\<rparr>,
      \<lparr>m_id = 3, userId = 7, content = ''q3'', fromUser = True\<rparr>,
      \<lparr>m_id = 4, userId = 7, content = ''a4'', fromUser = False\<rparr>,
      \<lparr>m_id = 5, userId = 7, content = ''q5'', fromUser = True\<rparr>,
      \<lparr>m_id = 6, userId = 7, content = ''a6'', fromUser = False\<rparr>,
      \<lparr>m_id = 7, userId = 7, content = ''q7'', fromUser = True\<rparr>,
      \<lparr>m_id = 8, userId = 7, content = ''a8'', fromUser = False\<rparr>]"

text \<open>
  The feed a profile fetch obtained, if any, and the genre occurrences of the items it
  examined. The ranking the specification describes: the distinct genres by descending
  number of occurrences, ties by first occurrence, the first five.
\<close>

definition feed_of ::
  "(string \<Rightarrow> url option) \<Rightarrow> (string \<Rightarrow> fetched) \<Rightarrow> (string \<Rightarrow> xml) \<Rightarrow> string
     \<Rightarrow> rss_item list option" where
  "feed_of parseURL axios_get parseXml u =
     (if validateLetterboxdUrl parseURL u then
        (case extractUsername parseURL u of
           Inl e \<Rightarrow> None
         | Inr username \<Rightarrow>
             (case axios_get (rssUrl username) of
                FetchFailed e \<Rightarrow> None
              | Fetched data \<Rightarrow>
                  (case parseXml data of Channel items \<Rightarrow> Some items | _ \<Rightarrow> None)))
      else None)"

definition demo_parseURL :: "string \<Rightarrow> url option" where
  "demo_parseURL s =
     (if s = ''https://letterboxd.com/ada''
      then Some \<lparr>hostname = ''letterboxd.com'', pathname = ''/ada''\<rparr> else None)"

definition demo_axios :: "string \<Rightarrow> fetched" where
  "demo_axios u =
     (if u = ''https://letterboxd.com/ada/rss/'' then Fetched ''<rss>''
      else FetchFailed (JsError ''Request failed with status code 404'' ''AxiosError''))"

definition failing_axios :: "string \<Rightarrow> fetched" where
  "failing_axios u = FetchFailed (JsError ''timeout of 10000ms exceeded'' ''AxiosError'')"

text \<open>
  The stub of \<^verbatim>\<open>trim\<close> strips the white space and line terminators of ECMAScript whose
  code is below 256: tab, line feed, vertical tab, form feed, carriage return, space and
  the no-break space. The stub of the engine's order on an inconsistent comparator leaves
  the array as it is.
\<close>

definition is_space :: "char \<Rightarrow> bool" where
  "is_space c = (c \<in> set [CHR 0x09, CHR 0x0A, CHR 0x0B, CHR 0x0C, CHR 0x0D, CHR 0x20, CHR 0xA0])"

definition trim_stub :: "string \<Rightarrow> string" where
  "trim_stub s = rev (dropWhile is_space (rev (dropWhile is_space s)))"

definition sort_stub :: "(string \<times> tally) list \<Rightarrow> (string \<times> tally) list" where
  "sort_stub entries = entries"

definition parseFloat_stub :: "string \<Rightarrow> number" where
  "parseFloat_stub s =
     (if s = ''5/5'' then Finite 5
      else if s = ''4.5/5'' then Finite (9 / 2)
      else if s = ''3/5'' then Finite 3
      else NaN)"

definition three_films :: "rss_item list" where
  "three_films =
     [Item (Some ''Alien'') (Some ''1979'') (Some ''5'') None,
      Item (Some ''Heat'') (Some ''1995'') (Some ''4.5'') None,
      Item (Some ''Cats'') (Some ''2019'') (Some ''3'') None]"

definition tagged_films :: "rss_item list" where
  "tagged_films =
     [Item (Some ''Alien'') None None (Some ''A, B''),
      Item (Some ''Heat'') None None (Some ''A, C''),
      Item (Some ''Cats'') None None (Some ''A'')]"

definition numbered_films :: "rss_item list" where
  "numbered_films =
     [Item (Some ''Alien'') None None (Some ''2''),
      Item (Some ''Heat'') None None (Some ''1'')]"

definition first_index :: "'a list \<Rightarrow> 'a \<Rightarrow> nat" where
  "first_index xs x = length (takeWhile (\<lambda>y. y \<noteq> x) xs)"

definition genre_rank :: "string list \<Rightarrow> string \<Rightarrow> int \<times> nat" where
  "genre_rank gs g = (- int (count_list gs g), first_index gs g)"

definition ranked_by_frequency :: "string list \<Rightarrow> string list" where
  "ranked_by_frequency gs = take 5 (sort_key (genre_rank gs) (remdups gs))"

definition genres_seen :: "(string \<Rightarrow> string) \<Rightarrow> rss_item list \<Rightarrow> string list" where
  "genres_seen trim items = concat (map (item_genres trim) (take 20 items))"

text \<open>The invariant of the counting loop after the genre occurrences \<open>p\<close>.\<close>

definition counted :: "string list \<Rightarrow> (string \<times> tally) list \<Rightarrow> bool" where
  "counted p freq \<longleftrightarrow>
     distinct (map fst freq)
     \<and> sorted_wrt (\<lambda>a b. first_index p a < first_index p b) (map fst freq)
     \<and> (\<forall>a. map_of freq a = (if a \<in> set p then Some (Count (count_list p a)) else None))"

text \<open>The sort key that the comparator of the ranking induces on counted entries.\<close>

definition count_key :: "string \<times> tally \<Rightarrow> int" where
  "count_key e = (case snd e of Count n \<Rightarrow> - int n | NotANumber \<Rightarrow> 0)"

definition demo_create :: "completion_request \<Rightarrow> completion" where
  "demo_create req =
     (case req of
        InsightRequest b mv mu \<Rightarrow> Replied (Some ''curious'')
      | PersonaRequest nm b mv mu insight \<Rightarrow> Replied (Some ''{}''))"

definition silent_create :: "completion_request \<Rightarrow> completion" where
  "silent_create req = Replied None"

definition demo_services :: services where
  "demo_services =
     \<lparr>sv_parseURL = demo_parseURL, sv_axios_get = demo_axios,
      sv_parseXml = (\<lambda>_. Channel three_films), sv_parseFloat = parseFloat_stub,
      sv_trim = trim_stub, sv_sort = sort_stub, completions_create = demo_create,
      parse_json = (\<lambda>_. Inl (JsError ''Unexpected end of JSON input'' ''SyntaxError''))\<rparr>"

definition new_store :: storage where
  "new_store =
     \<lparr>users = [], messages = [], next_user_id = 7, next_message_id = 12,
      rejects = (\<lambda>c. None)\<rparr>"

definition ada :: InsertUser where
  "ada = \<lparr>ins_name = ''Ada'', ins_letterboxdUrl = None, ins_spotifyUrl = None, ins_bio = ''reads''\<rparr>"

section \<open>Context window: properties\<close>

lemma slice_last5: "slice (- 5) None xs = drop (length xs - 5) xs"
  by (simp add: slice_def rel_index_def Let_def max_def nat_diff_distrib')

text \<open>
  Claim C6. For every turn log, context selection with the route's window of 5 returns the
  last \<open>min 5 n\<close> turns of the log in the log's own order, each rendered as the speaker
  label, a colon and a space, and the turn's text, where the label is the literal
  \<^verbatim>\<open>User\<close> for a user turn and the twin's name otherwise. On an 8-turn log these are
  turns 4 to 8.
\<close>

theorem context_is_last_five_turns:
  "selectContext twin turns = map (formatTurn twin) (drop (length turns - 5) turns)
   \<and> length (selectContext twin turns) = min 5 (length turns)
   \<and> (\<forall>i < min 5 (length turns).
         selectContext twin turns ! i =
           (if fromUser (turns ! (length turns - min 5 (length turns) + i)) then ''User'' else twin)
           @ '': '' @ content (turns ! (length turns - min 5 (length turns) + i)))"
proof -
  have eq: "selectContext twin turns = map (formatTurn twin) (drop (length turns - 5) turns)"
    by (simp add: selectContext_def slice_last5)
  have len: "length (selectContext twin turns) = min 5 (length turns)"
    by (simp add: eq)
  have "selectContext twin turns ! i =
           (if fromUser (turns ! (length turns - min 5 (length turns) + i)) then ''User'' else twin)
           @ '': '' @ content (turns ! (length turns - min 5 (length turns) + i))"
    if "i < min 5 (length turns)" for i
  proof -
    have "length turns - min 5 (length turns) = length turns - 5" by simp
    moreover have "i < length (drop (length turns - 5) turns)" using that by auto
    moreover have "length turns - 5 + i < length turns" using that by auto
    ultimately show ?thesis
      by (simp add: eq formatTurn_def)
  qed
  with eq len show ?thesis by blast
qed

theorem context_is_last_five_turns_witness:
  "selectContext ''Ada'' log8 = [''Ada: a4'', ''User: q5'', ''Ada: a6'', ''User: q7'', ''Ada: a8'']"
  using context_is_last_five_turns [of "''Ada''" log8]
  by (simp add: log8_def formatTurn_def)

section \<open>Chat route: properties\<close>

declare for_await.simps [simp del]

lemma for_await_End [simp]: "for_await EndOfStream w f = (True, requested 1 w, f)"
  by (subst for_await.simps) simp

lemma for_await_Interrupted [simp]: "for_await Interrupted w f = (False, requested 1 w, f)"
  by (subst for_await.simps) simp

lemma for_await_skip:
  assumes "c = None \<or> c = Some []"
  shows "for_await (Chunk c rest) w f = for_await rest (requested 1 w) f"
proof -
  obtain n r where nr: "streamChatResponse_next rest = (n, r)"
    by (cases "streamChatResponse_next rest")
  have nxt: "streamChatResponse_next (Chunk c rest) = (Suc n, r)"
    using assms nr by auto
  have L: "for_await (Chunk c rest) w f =
      (case r of
         Yielded chunk rest' \<Rightarrow>
           for_await rest' (res_write (RawText chunk) (requested (Suc n) w)) (f @ chunk)
       | Returned \<Rightarrow> (True, requested (Suc n) w, f)
       | Threw \<Rightarrow> (False, requested (Suc n) w, f))"
    by (subst for_await.simps) (simp only: nxt prod.case)
  have R: "for_await rest (requested 1 w) f =
      (case r of
         Yielded chunk rest' \<Rightarrow>
           for_await rest' (res_write (RawText chunk) (requested n (requested 1 w))) (f @ chunk)
       | Returned \<Rightarrow> (True, requested n (requested 1 w), f)
       | Threw \<Rightarrow> (False, requested n (requested 1 w), f))"
    by (subst for_await.simps) (simp only: nr prod.case)
  have "requested (Suc n) w = requested n (requested 1 w)"
    by (simp add: requested_def)
  then show ?thesis by (simp only: L R)
qed

lemma for_await_yield:
  assumes "s \<noteq> []"
  shows "for_await (Chunk (Some s) rest) w f =
         for_await rest (res_write (RawText s) (requested 1 w)) (f @ s)"
  by (subst for_await.simps) (simp add: assms)

lemma for_await_Chunk [simp]:
  "for_await (Chunk c rest) w f =
     (case c of
        Some s \<Rightarrow> if s \<noteq> [] then for_await rest (res_write (RawText s) (requested 1 w)) (f @ s)
                  else for_await rest (requested 1 w) f
      | None \<Rightarrow> for_await rest (requested 1 w) f)"
  by (cases c) (simp_all add: for_await_skip for_await_yield)

lemma for_await_run:
  "fst (for_await s w f) = ends_normally s \<and>
   snd (snd (for_await s w f)) = f @ concat (fragments s) \<and>
   store (fst (snd (for_await s w f))) = store w \<and>
   trace (fst (snd (for_await s w f))) = trace w @ stream_trace s \<and>
   body (res (fst (snd (for_await s w f)))) = body (res w) @ map RawText (fragments s) \<and>
   writableEnded (res (fst (snd (for_await s w f)))) = writableEnded (res w) \<and>
   statusCode (res (fst (snd (for_await s w f)))) = statusCode (res w) \<and>
   hangup (res (fst (snd (for_await s w f)))) = hangup (res w) \<and>
   uncaught (fst (snd (for_await s w f))) = uncaught w"
  by (induction s arbitrary: w f)
     (auto simp: requested_def res_write_def deliver_def split: option.splits)

lemma raw_texts_append: "raw_texts (ps @ qs) = raw_texts ps @ raw_texts qs"
  by (induction ps rule: raw_texts.induct) auto

lemma raw_texts_map_RawText: "raw_texts (map RawText xs) = xs"
  by (induction xs) auto

lemma addMessage_accepted:
  assumes "rejects st (InsertMessage uid txt f) = None"
  shows "addMessage st uid txt f =
           Inr (inserted_message st uid txt f,
                st\<lparr>messages := messages st @ [inserted_message st uid txt f],
                   next_message_id := Suc (next_message_id st)\<rparr>)"
  using assms by (simp add: addMessage_def Let_def)

lemma addMessage_rejected:
  assumes "rejects st (InsertMessage uid txt f) = Some e"
  shows "addMessage st uid txt f = Inl e"
  using assms by (simp add: addMessage_def)

lemma after_user_turn_facts:
  "store (after_user_turn h st uid txt) =
     st\<lparr>messages := messages st @ [inserted_message st uid txt True],
        next_message_id := Suc (next_message_id st)\<rparr>"
  "body (res (after_user_turn h st uid txt)) = [ControlRecord (inserted_message st uid txt True)]"
  "\<not> writableEnded (res (after_user_turn h st uid txt))"
  "headersSent (res (after_user_turn h st uid txt))"
  "statusCode (res (after_user_turn h st uid txt)) = 200"
  "trace (after_user_turn h st uid txt) =
     [DbInsert (inserted_message st uid txt True),
      Sent (ControlRecord (inserted_message st uid txt True))]"
  "uncaught (after_user_turn h st uid txt) = None"
  "hangup (res (after_user_turn h st uid txt)) = h"
  by (simp_all add: after_user_turn_def deliver_def fresh_response_def)

lemma opened_stream_accepted:
  assumes "opened_stream create st u uid txt = Some s"
  shows "rejects st (InsertMessage uid txt True) = None"
    and "rejects st (SelectMessages uid) = None"
  using assms
  by (auto simp: opened_stream_def addMessage_def getMessages_def Let_def split: option.splits)

lemma chat_route_accepted:
  assumes "getUser st uid = Inr (Some u)"
      and "rejects st (InsertMessage uid txt True) = None"
  shows "chat_route create h st uid txt =
    (case rejects st (SelectMessages uid) of
       Some e \<Rightarrow> on_error e (after_user_turn h st uid txt)
     | None \<Rightarrow>
         (case opened_stream create st u uid txt of
            None \<Rightarrow> on_stream_error (after_user_turn h st uid txt)
          | Some s \<Rightarrow>
              (case for_await s (after_user_turn h st uid txt) [] of
                 (True, w3, fullResponse) \<Rightarrow>
                   (case db_addMessage uid fullResponse False w3 of
                      Inl e \<Rightarrow> on_stream_error w3
                    | Inr (twinMessage, w4) \<Rightarrow> res_end None w4)
               | (False, w3, fullResponse) \<Rightarrow> on_stream_error w3)))"
  using assms
  by (simp add: chat_route_def opened_stream_def db_addMessage_def addMessage_def
        getMessages_def res_write_def after_user_turn_def Let_def split: option.splits)

lemma chat_route_insert_rejected:
  assumes "getUser st uid = Inr (Some u)"
      and "rejects st (InsertMessage uid txt True) = Some e"
  shows "body (res (chat_route create h st uid txt)) = [JsonMessage (error_message e)]"
    and "statusCode (res (chat_route create h st uid txt)) = 400"
    and "writableEnded (res (chat_route create h st uid txt))"
    and "store (chat_route create h st uid txt) = st"
    and "trace (chat_route create h st uid txt) = [Sent (JsonMessage (error_message e)), Finished]"
    and "uncaught (chat_route create h st uid txt) = None"
  using assms
  by (simp_all add: chat_route_def db_addMessage_def addMessage_def on_error_def res_json_def
        res_end_def res_write_def deliver_def fresh_response_def Let_def)

lemma chat_route_select_rejected:
  assumes "getUser st uid = Inr (Some u)"
      and "rejects st (InsertMessage uid txt True) = None"
      and "rejects st (SelectMessages uid) = Some e"
  shows "body (res (chat_route create h st uid txt)) =
           [ControlRecord (inserted_message st uid txt True)]"
    and "\<not> writableEnded (res (chat_route create h st uid txt))"
    and "messages (store (chat_route create h st uid txt)) =
           messages st @ [inserted_message st uid txt True]"
    and "trace (chat_route create h st uid txt) =
           [DbInsert (inserted_message st uid txt True),
            Sent (ControlRecord (inserted_message st uid txt True))]"
    and "uncaught (chat_route create h st uid txt) = Some headers_sent_error"
  using assms(3)
  by (simp_all add: chat_route_accepted [OF assms(1,2)] on_error_def res_json_def
        after_user_turn_facts Let_def)

lemma chat_route_refused:
  assumes "getUser st uid = Inr (Some u)"
      and "rejects st (InsertMessage uid txt True) = None"
      and "rejects st (SelectMessages uid) = None"
      and "opened_stream create st u uid txt = None"
  shows "body (res (chat_route create h st uid txt)) =
           [ControlRecord (inserted_message st uid txt True), ErrorRecord]"
    and "writableEnded (res (chat_route create h st uid txt))"
    and "statusCode (res (chat_route create h st uid txt)) = 200"
    and "messages (store (chat_route create h st uid txt)) =
           messages st @ [inserted_message st uid txt True]"
    and "trace (chat_route create h st uid txt) =
           [DbInsert (inserted_message st uid txt True),
            Sent (ControlRecord (inserted_message st uid txt True)), Sent ErrorRecord, Finished]"
    and "uncaught (chat_route create h st uid txt) = None"
  using assms(3,4)
  by (simp_all add: chat_route_accepted [OF assms(1,2)] on_stream_error_def res_end_def
        res_write_def deliver_def after_user_turn_facts Let_def)

lemma chat_route_completed:
  assumes "getUser st uid = Inr (Some u)" and "opened_stream create st u uid txt = Some s"
      and "ends_normally s"
      and "rejects st (InsertMessage uid (concat (fragments s)) False) = None"
  shows "body (res (chat_route create h st uid txt)) =
           ControlRecord (inserted_message st uid txt True) # map RawText (fragments s)"
    and "writableEnded (res (chat_route create h st uid txt))"
    and "statusCode (res (chat_route create h st uid txt)) = 200"
    and "messages (store (chat_route create h st uid txt)) =
           messages st @ [inserted_message st uid txt True,
             \<lparr>m_id = Suc (next_message_id st), userId = uid, content = concat (fragments s),
              fromUser = False\<rparr>]"
    and "trace (chat_route create h st uid txt) =
           DbInsert (inserted_message st uid txt True)
           # Sent (ControlRecord (inserted_message st uid txt True))
           # stream_trace s
           @ [DbInsert \<lparr>m_id = Suc (next_message_id st), userId = uid,
                content = concat (fragments s), fromUser = False\<rparr>, Finished]"
    and "uncaught (chat_route create h st uid txt) = None"
proof -
  let ?um = "inserted_message st uid txt True"
  let ?w2 = "after_user_turn h st uid txt"
  note acc = opened_stream_accepted [OF assms(2)]
  obtain ok w3 full where run: "for_await s ?w2 [] = (ok, w3, full)"
    by (cases "for_await s ?w2 []")
  from for_await_run [of s ?w2 "[]"] run assms(3)
  have ok: "ok" and full: "full = concat (fragments s)"
    and st: "store w3 = store ?w2"
    and tr: "trace w3 = [DbInsert ?um, Sent (ControlRecord ?um)] @ stream_trace s"
    and bd: "body (res w3) = [ControlRecord ?um] @ map RawText (fragments s)"
    and en: "\<not> writableEnded (res w3)"
    and sc: "statusCode (res w3) = 200"
    and un: "uncaught w3 = None"
    by (simp_all add: after_user_turn_facts)
  have ins: "db_addMessage uid full False w3 =
      Inr (\<lparr>m_id = Suc (next_message_id st), userId = uid, content = concat (fragments s),
            fromUser = False\<rparr>,
           w3\<lparr>store := (store w3)\<lparr>messages := messages st @ [?um,
                 \<lparr>m_id = Suc (next_message_id st), userId = uid,
                  content = concat (fragments s), fromUser = False\<rparr>],
                next_message_id := Suc (Suc (next_message_id st))\<rparr>,
              trace := trace w3 @ [DbInsert \<lparr>m_id = Suc (next_message_id st), userId = uid,
                  content = concat (fragments s), fromUser = False\<rparr>]\<rparr>)"
    using assms(4)
    by (simp add: db_addMessage_def addMessage_def inserted_message_def st after_user_turn_facts
          full Let_def)
  have route: "chat_route create h st uid txt =
      res_end None (snd (projr (db_addMessage uid full False w3)))"
    using assms(2) run ok acc by (simp add: chat_route_accepted [OF assms(1) acc(1)] ins)
  show "body (res (chat_route create h st uid txt)) = ControlRecord ?um # map RawText (fragments s)"
    by (simp add: route ins res_end_def bd)
  show "writableEnded (res (chat_route create h st uid txt))"
    by (simp add: route res_end_def Let_def)
  show "statusCode (res (chat_route create h st uid txt)) = 200"
    by (simp add: route ins res_end_def sc)
  show "messages (store (chat_route create h st uid txt)) =
           messages st @ [?um, \<lparr>m_id = Suc (next_message_id st), userId = uid,
              content = concat (fragments s), fromUser = False\<rparr>]"
    by (simp add: route ins res_end_def)
  show "trace (chat_route create h st uid txt) =
           DbInsert ?um # Sent (ControlRecord ?um) # stream_trace s
           @ [DbInsert \<lparr>m_id = Suc (next_message_id st), userId = uid,
                content = concat (fragments s), fromUser = False\<rparr>, Finished]"
    by (simp add: route ins res_end_def tr)
  show "uncaught (chat_route create h st uid txt) = None"
    by (simp add: route ins res_end_def un)
qed

lemma chat_route_failed:
  assumes "getUser st uid = Inr (Some u)" and "opened_stream create st u uid txt = Some s"
      and "\<not> (ends_normally s \<and> rejects st (InsertMessage uid (concat (fragments s)) False) = None)"
  shows "body (res (chat_route create h st uid txt)) =
           ControlRecord (inserted_message st uid txt True) # map RawText (fragments s) @ [ErrorRecord]"
    and "writableEnded (res (chat_route create h st uid txt))"
    and "statusCode (res (chat_route create h st uid txt)) = 200"
    and "messages (store (chat_route create h st uid txt)) =
           messages st @ [inserted_message st uid txt True]"
    and "trace (chat_route create h st uid txt) =
           DbInsert (inserted_message st uid txt True)
           # Sent (ControlRecord (inserted_message st uid txt True))
           # stream_trace s @ [Sent ErrorRecord, Finished]"
    and "uncaught (chat_route create h st uid txt) = None"
proof -
  let ?um = "inserted_message st uid txt True"
  let ?w2 = "after_user_turn h st uid txt"
  note acc = opened_stream_accepted [OF assms(2)]
  obtain ok w3 full where run: "for_await s ?w2 [] = (ok, w3, full)"
    by (cases "for_await s ?w2 []")
  from for_await_run [of s ?w2 "[]"] run
  have ok: "ok = ends_normally s" and full: "full = concat (fragments s)"
    and st: "store w3 = store ?w2"
    and tr: "trace w3 = [DbInsert ?um, Sent (ControlRecord ?um)] @ stream_trace s"
    and bd: "body (res w3) = [ControlRecord ?um] @ map RawText (fragments s)"
    and en: "\<not> writableEnded (res w3)"
    and sc: "statusCode (res w3) = 200"
    and un: "uncaught w3 = None"
    by (simp_all add: after_user_turn_facts)
  have "ok \<Longrightarrow> \<exists>e. db_addMessage uid full False w3 = Inl e"
    using assms(3)
    by (auto simp: ok db_addMessage_def addMessage_def st after_user_turn_facts full)
  then have route: "chat_route create h st uid txt = res_end (Some ErrorRecord) w3"
    using assms(2) run acc en
    by (cases ok) (auto simp: chat_route_accepted [OF assms(1) acc(1)] on_stream_error_def)
  show "body (res (chat_route create h st uid txt)) =
           ControlRecord ?um # map RawText (fragments s) @ [ErrorRecord]"
    by (simp add: route res_end_def res_write_def deliver_def bd)
  show "writableEnded (res (chat_route create h st uid txt))"
    by (simp add: route res_end_def Let_def)
  show "statusCode (res (chat_route create h st uid txt)) = 200"
    by (simp add: route res_end_def res_write_def deliver_def sc)
  show "messages (store (chat_route create h st uid txt)) = messages st @ [?um]"
    by (simp add: route res_end_def res_write_def st after_user_turn_facts)
  show "trace (chat_route create h st uid txt) =
           DbInsert ?um # Sent (ControlRecord ?um) # stream_trace s @ [Sent ErrorRecord, Finished]"
    by (simp add: route res_end_def res_write_def tr)
  show "uncaught (chat_route create h st uid txt) = None"
    by (simp add: route res_end_def res_write_def un)
qed

lemma for_await_no_hangup:
  "hangup (res w) = None \<Longrightarrow> received (res w) = body (res w) \<Longrightarrow>
   received (res (fst (snd (for_await s w f)))) = body (res (fst (snd (for_await s w f))))"
  by (induction s arbitrary: w f)
     (auto simp: requested_def res_write_def deliver_def connected_def split: option.splits)

lemma connected_fresh_None: "connected (fresh_response None)"
  by (simp add: connected_def fresh_response_def)

lemma on_error_fresh:
  "on_error e \<lparr>store = st, res = fresh_response h, trace = [], uncaught = None\<rparr> =
     \<lparr>store = st,
      res = \<lparr>statusCode = 400, headersSent = True, body = [JsonMessage (error_message e)],
             writableEnded = True, hangup = h,
             received = (if connected (fresh_response h) then [JsonMessage (error_message e)] else [])\<rparr>,
      trace = [Sent (JsonMessage (error_message e)), Finished], uncaught = None\<rparr>"
  by (cases h)
     (simp_all add: on_error_def res_json_def res_end_def res_write_def deliver_def
        fresh_response_def connected_def Let_def)

lemma not_found_fresh:
  "res_json 404 ''User not found'' \<lparr>store = st, res = fresh_response h, trace = [], uncaught = None\<rparr> =
     \<lparr>store = st,
      res = \<lparr>statusCode = 404, headersSent = True, body = [JsonMessage ''User not found''],
             writableEnded = True, hangup = h,
             received = (if connected (fresh_response h) then [JsonMessage ''User not found''] else [])\<rparr>,
      trace = [Sent (JsonMessage ''User not found''), Finished], uncaught = None\<rparr>"
  by (cases h)
     (simp_all add: res_json_def res_end_def res_write_def deliver_def fresh_response_def
        connected_def Let_def)

lemma chat_route_no_user:
  assumes "\<And>v. getUser st uid \<noteq> Inr (Some v)"
  shows "chat_route create h st uid txt =
    (case getUser st uid of
       Inl e \<Rightarrow> on_error e \<lparr>store = st, res = fresh_response h, trace = [], uncaught = None\<rparr>
     | Inr found \<Rightarrow>
         res_json 404 ''User not found''
           \<lparr>store = st, res = fresh_response h, trace = [], uncaught = None\<rparr>)"
proof (cases "getUser st uid")
  case (Inl e)
  then show ?thesis by (simp add: chat_route_def)
next
  case (Inr found)
  with assms have "found = None" by (cases found) auto
  with Inr show ?thesis by (simp add: chat_route_def)
qed

lemma chat_route_no_hangup:
  "received (res (chat_route create None st uid txt)) = body (res (chat_route create None st uid txt))"
proof (cases "\<exists>u. getUser st uid = Inr (Some u)")
  case False
  then have "chat_route create None st uid txt =
    (case getUser st uid of
       Inl e \<Rightarrow> on_error e \<lparr>store = st, res = fresh_response None, trace = [], uncaught = None\<rparr>
     | Inr found \<Rightarrow>
         res_json 404 ''User not found''
           \<lparr>store = st, res = fresh_response None, trace = [], uncaught = None\<rparr>)"
    by (intro chat_route_no_user) auto
  then show ?thesis
    by (simp add: on_error_fresh not_found_fresh connected_fresh_None split: sum.splits)
next
  case True
  then obtain u where u: "getUser st uid = Inr (Some u)" by blast
  let ?w2 = "after_user_turn None st uid txt"
  have w2: "hangup (res ?w2) = None" "received (res ?w2) = body (res ?w2)"
    by (simp_all add: after_user_turn_def deliver_def fresh_response_def connected_def)
  show ?thesis
  proof (cases "rejects st (InsertMessage uid txt True)")
    case (Some e)
    then show ?thesis
      using u
      by (simp add: chat_route_def db_addMessage_def addMessage_def on_error_fresh
            connected_fresh_None)
  next
    case None
    note ins = None
    show ?thesis
    proof (cases "rejects st (SelectMessages uid)")
      case (Some e)
      then show ?thesis
        using w2
        by (simp add: chat_route_accepted [OF u ins] on_error_def res_json_def
              after_user_turn_facts Let_def)
    next
      case None
      note sel = None
      show ?thesis
      proof (cases "opened_stream create st u uid txt")
        case None
        then show ?thesis
          using sel w2
          by (simp add: chat_route_accepted [OF u ins] on_stream_error_def res_end_def
                res_write_def deliver_def connected_def after_user_turn_facts Let_def)
      next
        case (Some s)
        obtain ok w3 full where run: "for_await s ?w2 [] = (ok, w3, full)"
          by (cases "for_await s ?w2 []")
        from for_await_no_hangup [OF w2, of s "[]"] for_await_run [of s ?w2 "[]"] run
        have w3: "received (res w3) = body (res w3)" "hangup (res w3) = None"
          by (simp_all add: after_user_turn_facts)
        show ?thesis
          using sel Some run w3
          by (cases ok)
             (auto simp: chat_route_accepted [OF u ins] Let_def on_stream_error_def res_end_def
                res_write_def deliver_def connected_def db_addMessage_def
                split: sum.splits)
      qed
    qed
  qed
qed

lemma completed_iff:
  assumes "getUser st uid = Inr (Some u)"
  shows "completed (chat_route create h st uid txt) \<longleftrightarrow>
         (\<exists>s. opened_stream create st u uid txt = Some s \<and> ends_normally s
              \<and> rejects st (InsertMessage uid (concat (fragments s)) False) = None)"
proof (cases "opened_stream create st u uid txt")
  case None
  note closed = None
  show ?thesis
  proof (cases "rejects st (InsertMessage uid txt True)")
    case (Some e)
    then show ?thesis
      using chat_route_insert_rejected(2) [OF assms Some, of create h] closed
      by (simp add: completed_def)
  next
    case None
    note ins = None
    show ?thesis
    proof (cases "rejects st (SelectMessages uid)")
      case (Some e)
      then show ?thesis
        using chat_route_select_rejected(2) [OF assms ins Some, of create h] closed
        by (simp add: completed_def)
    next
      case None
      then show ?thesis
        using chat_route_refused(1) [OF assms ins None closed, of h] closed
        by (simp add: completed_def)
    qed
  qed
next
  case (Some s)
  show ?thesis
  proof (cases "ends_normally s \<and> rejects st (InsertMessage uid (concat (fragments s)) False) = None")
    case True
    then show ?thesis
      using chat_route_completed(1,2,3) [OF assms Some, of h] Some
      by (auto simp: completed_def)
  next
    case False
    then show ?thesis
      using chat_route_failed(1) [OF assms Some False, of h] Some
      by (auto simp: completed_def)
  qed
qed

text \<open>
  Claim C1. When a chat request to an existing user completes normally (the response ended
  with status 200 and no error record was written), the raw parts written to the consumer
  are, in arrival order, exactly the non-empty fragments of the opened stream, and the
  table has gained the user's turn followed by the twin's turn, whose text is the
  concatenation of those raw parts. A consumer that stays connected receives every part
  written, in order.
\<close>

theorem persisted_text_is_streamed_text:
  assumes "getUser st uid = Inr (Some u)"
      and "completed (chat_route create h st uid txt)"
  shows "\<exists>s. opened_stream create st u uid txt = Some s
           \<and> raw_texts (body (res (chat_route create h st uid txt))) = fragments s
           \<and> messages (store (chat_route create h st uid txt)) =
               messages st @
               [\<lparr>m_id = next_message_id st, userId = uid, content = txt, fromUser = True\<rparr>,
                \<lparr>m_id = Suc (next_message_id st), userId = uid,
                 content = concat (raw_texts (body (res (chat_route create h st uid txt)))),
                 fromUser = False\<rparr>]
           \<and> received (res (chat_route create None st uid txt)) =
               body (res (chat_route create None st uid txt))"
proof -
  from assms obtain s where s: "opened_stream create st u uid txt = Some s" "ends_normally s"
      "rejects st (InsertMessage uid (concat (fragments s)) False) = None"
    by (auto simp: completed_iff)
  have "raw_texts (body (res (chat_route create h st uid txt))) = fragments s"
    by (simp add: chat_route_completed(1) [OF assms(1) s] raw_texts_map_RawText)
  moreover have "messages (store (chat_route create h st uid txt)) =
      messages st @ [\<lparr>m_id = next_message_id st, userId = uid, content = txt, fromUser = True\<rparr>,
        \<lparr>m_id = Suc (next_message_id st), userId = uid, content = concat (fragments s),
         fromUser = False\<rparr>]"
    by (simp add: chat_route_completed(4) [OF assms(1) s] inserted_message_def)
  ultimately show ?thesis using s(1) chat_route_no_hangup by simp
qed

lemma demo_getUser: "getUser demo_store 7 = Inr (Some demo_user)"
  by (simp add: getUser_def demo_store_def demo_user_def)

lemma demo_accepts: "rejects demo_store c = None"
  by (simp add: demo_store_def)

lemma demo_opened:
  "opened_stream (\<lambda>_. Opened hello_stream) demo_store demo_user 7 ''hi'' = Some hello_stream"
  by (simp add: opened_stream_def addMessage_def getMessages_def demo_accepts Let_def
        streamChatResponse_open_def is_array_field_def demo_user_def)

lemma hello_stream_facts:
  "ends_normally hello_stream" "fragments hello_stream = [''Hel'', ''lo'', '' there'']"
  by (simp_all add: hello_stream_def)

lemma demo_run_completed:
  "completed (chat_route (\<lambda>_. Opened hello_stream) None demo_store 7 ''hi'')"
  by (simp add: completed_iff [OF demo_getUser] demo_opened hello_stream_facts demo_accepts)

theorem persisted_text_is_streamed_text_witness:
  "getUser demo_store 7 = Inr (Some demo_user)
   \<and> completed (chat_route (\<lambda>_. Opened hello_stream) None demo_store 7 ''hi'')
   \<and> raw_texts (body (res (chat_route (\<lambda>_. Opened hello_stream) None demo_store 7 ''hi'')))
       = [''Hel'', ''lo'', '' there'']
   \<and> map content (messages (store (chat_route (\<lambda>_. Opened hello_stream) None demo_store 7 ''hi'')))
       = [''hi'', ''Hello there'']"
proof -
  let ?run = "chat_route (\<lambda>_. Opened hello_stream) None demo_store 7 ''hi''"
  from persisted_text_is_streamed_text [OF demo_getUser demo_run_completed]
  have frs: "raw_texts (body (res ?run)) = fragments hello_stream"
   and msgs: "messages (store ?run) = messages demo_store @
          [\<lparr>m_id = next_message_id demo_store, userId = 7, content = ''hi'', fromUser = True\<rparr>,
           \<lparr>m_id = Suc (next_message_id demo_store), userId = 7,
            content = concat (raw_texts (body (res ?run))), fromUser = False\<rparr>]"
    by (simp_all add: demo_opened)
  have "map content (messages (store ?run)) = [''hi'', ''Hello there'']"
    unfolding msgs frs
    by (simp add: hello_stream_facts demo_store_def)
  then show ?thesis
    by (simp add: frs hello_stream_facts demo_getUser demo_run_completed)
qed

lemma demo_broken_opened:
  "opened_stream (\<lambda>_. Opened broken_stream) demo_store demo_user 7 ''hi'' = Some broken_stream"
  by (simp add: opened_stream_def addMessage_def getMessages_def demo_accepts Let_def
        streamChatResponse_open_def is_array_field_def demo_user_def)

lemma broken_stream_facts:
  "\<not> ends_normally broken_stream" "fragments broken_stream = [''Hel'']"
  "stream_trace broken_stream = [Requested, Sent (RawText ''Hel''), Requested]"
  by (simp_all add: broken_stream_def)

text \<open>
  Claim C8. When the opened stream fails after it has delivered at least one fragment, the
  response body holds the control record, then every fragment delivered before the failure,
  in order, then the error record, and the response is ended; in the handler's history the
  error record is sent after the last fragment and right before the end. The twin's turn is
  not persisted. A consumer that stays connected receives the whole body.
\<close>

theorem interrupted_stream_keeps_fragments:
  assumes "getUser st uid = Inr (Some u)"
      and "opened_stream create st u uid txt = Some s"
      and "\<not> ends_normally s"
      and "fragments s \<noteq> []"
  shows "body (res (chat_route create h st uid txt)) =
           ControlRecord \<lparr>m_id = next_message_id st, userId = uid, content = txt, fromUser = True\<rparr>
           # map RawText (fragments s) @ [ErrorRecord]
         \<and> writableEnded (res (chat_route create h st uid txt))
         \<and> trace (chat_route create h st uid txt) =
             DbInsert \<lparr>m_id = next_message_id st, userId = uid, content = txt, fromUser = True\<rparr>
             # Sent (ControlRecord
                 \<lparr>m_id = next_message_id st, userId = uid, content = txt, fromUser = True\<rparr>)
             # stream_trace s @ [Sent ErrorRecord, Finished]
         \<and> messages (store (chat_route create h st uid txt)) =
             messages st @
             [\<lparr>m_id = next_message_id st, userId = uid, content = txt, fromUser = True\<rparr>]
         \<and> received (res (chat_route create None st uid txt)) =
             body (res (chat_route create None st uid txt))"
proof -
  have "\<not> (ends_normally s \<and> rejects st (InsertMessage uid (concat (fragments s)) False) = None)"
    using assms(3) by simp
  from chat_route_failed [OF assms(1,2) this, of h] chat_route_no_hangup
  show ?thesis by (simp add: inserted_message_def)
qed

theorem interrupted_stream_keeps_fragments_witness:
  "getUser demo_store 7 = Inr (Some demo_user)
   \<and> opened_stream (\<lambda>_. Opened broken_stream) demo_store demo_user 7 ''hi'' = Some broken_stream
   \<and> \<not> ends_normally broken_stream
   \<and> fragments broken_stream \<noteq> []
   \<and> received (res (chat_route (\<lambda>_. Opened broken_stream) None demo_store 7 ''hi'')) =
       [ControlRecord \<lparr>m_id = 12, userId = 7, content = ''hi'', fromUser = True\<rparr>,
        RawText ''Hel'', ErrorRecord]
   \<and> map content (messages (store (chat_route (\<lambda>_. Opened broken_stream) None demo_store 7 ''hi'')))
       = [''hi'']"
proof -
  have nonempty: "fragments broken_stream \<noteq> []"
    by (simp add: broken_stream_facts)
  note run = interrupted_stream_keeps_fragments
    [OF demo_getUser demo_broken_opened broken_stream_facts(1) nonempty, of None]
  have store: "next_message_id demo_store = 12" "messages demo_store = []"
    by (simp_all add: demo_store_def)
  show ?thesis
    using run by (simp add: demo_getUser demo_broken_opened broken_stream_facts store)
qed

text \<open>
  Claim C10, as the code has it. For a chat request to an existing user, the handler first
  asks the database to insert the user's turn. When the database accepts the insert, it is
  the handler's first effect, before anything is written to the response or requested from
  the service, and whatever happens afterwards that turn stays in the table: a completed
  request adds the twin's turn after it, any other outcome adds nothing. When the database
  refuses the insert, the handler answers 400 with the error's message, and nothing is
  persisted and nothing is streamed. The counterexample below is a message with a NUL
  character sent to a database that refuses such a text, as PostgreSQL does.
\<close>

theorem user_turn_persisted_first:
  assumes "getUser st uid = Inr (Some u)"
  shows "case rejects st (InsertMessage uid txt True) of
           None \<Rightarrow>
             (\<exists>rest. trace (chat_route create h st uid txt) =
                DbInsert (inserted_message st uid txt True)
                # Sent (ControlRecord (inserted_message st uid txt True)) # rest)
             \<and> inserted_message st uid txt True =
                 \<lparr>m_id = next_message_id st, userId = uid, content = txt, fromUser = True\<rparr>
             \<and> (if completed (chat_route create h st uid txt)
                 then \<exists>reply. messages (store (chat_route create h st uid txt)) =
                        messages st @ [inserted_message st uid txt True, reply]
                        \<and> \<not> fromUser reply
                 else messages (store (chat_route create h st uid txt)) =
                        messages st @ [inserted_message st uid txt True])
         | Some e \<Rightarrow>
             messages (store (chat_route create h st uid txt)) = messages st
             \<and> trace (chat_route create h st uid txt) =
                 [Sent (JsonMessage (error_message e)), Finished]
             \<and> body (res (chat_route create h st uid txt)) = [JsonMessage (error_message e)]
             \<and> statusCode (res (chat_route create h st uid txt)) = 400"
proof (cases "rejects st (InsertMessage uid txt True)")
  case (Some e)
  then show ?thesis
    using chat_route_insert_rejected [OF assms Some, of create h] by simp
next
  case None
  note ins = None
  have um: "inserted_message st uid txt True =
             \<lparr>m_id = next_message_id st, userId = uid, content = txt, fromUser = True\<rparr>"
    by (simp add: inserted_message_def)
  have goal: "(\<exists>rest. trace (chat_route create h st uid txt) =
                DbInsert (inserted_message st uid txt True)
                # Sent (ControlRecord (inserted_message st uid txt True)) # rest)
             \<and> (if completed (chat_route create h st uid txt)
                 then \<exists>reply. messages (store (chat_route create h st uid txt)) =
                        messages st @ [inserted_message st uid txt True, reply]
                        \<and> \<not> fromUser reply
                 else messages (store (chat_route create h st uid txt)) =
                        messages st @ [inserted_message st uid txt True])"
  proof (cases "opened_stream create st u uid txt")
    case None
    then have nc: "\<not> completed (chat_route create h st uid txt)"
      by (simp add: completed_iff [OF assms])
    show ?thesis
    proof (cases "rejects st (SelectMessages uid)")
      case (Some e)
      then show ?thesis
        using chat_route_select_rejected(3,4) [OF assms ins Some, of create h] nc by simp
    next
      case sel: None
      show ?thesis
        using chat_route_refused(4,5) [OF assms ins sel None, of h] nc by simp
    qed
  next
    case (Some s)
    show ?thesis
    proof (cases "ends_normally s \<and> rejects st (InsertMessage uid (concat (fragments s)) False) = None")
      case True
      then have "completed (chat_route create h st uid txt)"
        using Some by (simp add: completed_iff [OF assms])
      then show ?thesis
        using chat_route_completed(4,5) [OF assms Some, of h] True by simp
    next
      case False
      then have "\<not> completed (chat_route create h st uid txt)"
        using Some by (auto simp: completed_iff [OF assms])
      then show ?thesis
        using chat_route_failed(4,5) [OF assms Some False, of h] by simp
    qed
  qed
  show ?thesis
    by (simp only: ins option.case) (use goal um in blast)
qed

lemma demo_broken_not_completed:
  "\<not> completed (chat_route (\<lambda>_. Opened broken_stream) None demo_store 7 ''hi'')"
  by (simp add: completed_iff [OF demo_getUser] demo_broken_opened broken_stream_facts)

theorem user_turn_persisted_first_witness:
  "getUser demo_store 7 = Inr (Some demo_user)
   \<and> rejects demo_store (InsertMessage 7 ''hi'' True) = None
   \<and> \<not> completed (chat_route (\<lambda>_. Opened broken_stream) None demo_store 7 ''hi'')
   \<and> messages (store (chat_route (\<lambda>_. Opened broken_stream) None demo_store 7 ''hi'')) =
       [\<lparr>m_id = 12, userId = 7, content = ''hi'', fromUser = True\<rparr>]
   \<and> take 1 (trace (chat_route (\<lambda>_. Opened broken_stream) None demo_store 7 ''hi'')) =
       [DbInsert \<lparr>m_id = 12, userId = 7, content = ''hi'', fromUser = True\<rparr>]"
proof -
  note run = user_turn_persisted_first
    [OF demo_getUser, of "\<lambda>_. Opened broken_stream" None "''hi''"]
  have store: "next_message_id demo_store = 12" "messages demo_store = []"
    by (simp_all add: demo_store_def)
  from run show ?thesis
    by (auto simp: demo_getUser demo_accepts demo_broken_not_completed inserted_message_def store)
qed

lemma strict_getUser: "getUser strict_store 7 = Inr (Some demo_user)"
  by (simp add: getUser_def strict_store_def demo_store_def demo_user_def refuses_nul_def)

theorem refused_insert_counterexample:
  "getUser strict_store 7 = Inr (Some demo_user)
   \<and> messages (store (chat_route (\<lambda>_. Opened hello_stream) None strict_store 7
         [CHR ''a'', CHR 0x00, CHR ''b''])) = []
   \<and> body (res (chat_route (\<lambda>_. Opened hello_stream) None strict_store 7
         [CHR ''a'', CHR 0x00, CHR ''b''])) =
       [JsonMessage ''invalid byte sequence for encoding UTF8: 0x00'']
   \<and> statusCode (res (chat_route (\<lambda>_. Opened hello_stream) None strict_store 7
         [CHR ''a'', CHR 0x00, CHR ''b''])) = 400
   \<and> trace (chat_route (\<lambda>_. Opened hello_stream) None strict_store 7
         [CHR ''a'', CHR 0x00, CHR ''b'']) =
       [Sent (JsonMessage ''invalid byte sequence for encoding UTF8: 0x00''), Finished]"
proof -
  have rej: "rejects strict_store (InsertMessage 7 [CHR ''a'', CHR 0x00, CHR ''b''] True) =
      Some (JsError ''invalid byte sequence for encoding UTF8: 0x00'' ''error'')"
    by (simp add: strict_store_def refuses_nul_def)
  have "messages strict_store = []"
    by (simp add: strict_store_def demo_store_def)
  then show ?thesis
    using chat_route_insert_rejected [OF strict_getUser rej, of "\<lambda>_. Opened hello_stream" None]
    by (simp add: strict_getUser error_message_def)
qed

lemma requests_in_stream_trace:
  "length (filter (\<lambda>e. e = Requested) (stream_trace s)) = Suc (chunks s)"
  by (induction s) (auto split: option.splits)

lemma chat_route_ignores_hangup:
  "trace (chat_route create h st uid txt) = trace (chat_route create None st uid txt)
   \<and> body (res (chat_route create h st uid txt)) = body (res (chat_route create None st uid txt))
   \<and> messages (store (chat_route create h st uid txt)) =
       messages (store (chat_route create None st uid txt))"
proof (cases "\<exists>u. getUser st uid = Inr (Some u)")
  case False
  then have "chat_route create k st uid txt =
    (case getUser st uid of
       Inl e \<Rightarrow> on_error e \<lparr>store = st, res = fresh_response k, trace = [], uncaught = None\<rparr>
     | Inr found \<Rightarrow>
         res_json 404 ''User not found''
           \<lparr>store = st, res = fresh_response k, trace = [], uncaught = None\<rparr>)" for k
    by (intro chat_route_no_user) auto
  then show ?thesis
    by (simp add: on_error_fresh not_found_fresh split: sum.splits)
next
  case True
  then obtain u where u: "getUser st uid = Inr (Some u)" by blast
  show ?thesis
  proof (cases "rejects st (InsertMessage uid txt True)")
    case (Some e)
    show ?thesis
      using chat_route_insert_rejected [OF u Some, of create h]
            chat_route_insert_rejected [OF u Some, of create None]
      by simp
  next
    case None
    note ins = None
    show ?thesis
    proof (cases "rejects st (SelectMessages uid)")
      case (Some e)
      show ?thesis
        using chat_route_select_rejected [OF u ins Some, of create h]
              chat_route_select_rejected [OF u ins Some, of create None]
        by simp
    next
      case None
      note sel = None
      show ?thesis
      proof (cases "opened_stream create st u uid txt")
        case None
        show ?thesis
          using chat_route_refused [OF u ins sel None, of h]
                chat_route_refused [OF u ins sel None, of None]
          by simp
      next
        case (Some s)
        show ?thesis
        proof (cases "ends_normally s
            \<and> rejects st (InsertMessage uid (concat (fragments s)) False) = None")
          case True
          then show ?thesis
            using chat_route_completed [OF u Some, of h] chat_route_completed [OF u Some, of None]
            by simp
        next
          case False
          show ?thesis
            using chat_route_failed [OF u Some False, of h]
                  chat_route_failed [OF u Some False, of None]
            by simp
        qed
      qed
    qed
  qed
qed

lemma requests_of_opened_stream:
  assumes "getUser st uid = Inr (Some u)" and "opened_stream create st u uid txt = Some s"
  shows "requests_after_sent 0 (trace (chat_route create h st uid txt)) = Suc (chunks s)"
proof (cases "ends_normally s \<and> rejects st (InsertMessage uid (concat (fragments s)) False) = None")
  case True
  then show ?thesis
    using chat_route_completed(5) [OF assms, of h] by (simp add: requests_in_stream_trace)
next
  case False
  show ?thesis
    using chat_route_failed(5) [OF assms False, of h] by (simp add: requests_in_stream_trace)
qed

text \<open>
  Claim C9, as the code has it. The handler never observes the consumer: its effects, the
  body it writes and the turns it persists are the same whether or not, and whenever, the
  consumer disconnects. Once a stream is opened the handler requests every chunk of it up
  to its end or failure, and the request completes exactly when the stream ends naturally
  and the database accepts the twin's turn. The counterexample below is the cancellation
  scenario: the consumer leaves after the first fragment, and three more requests reach the
  service and the full reply is persisted.
\<close>

theorem hangup_has_no_effect_on_handler:
  "trace (chat_route create h st uid txt) = trace (chat_route create None st uid txt)
   \<and> body (res (chat_route create h st uid txt)) = body (res (chat_route create None st uid txt))
   \<and> messages (store (chat_route create h st uid txt)) =
       messages (store (chat_route create None st uid txt))
   \<and> (case getUser st uid of
         Inr (Some u) \<Rightarrow>
           (case opened_stream create st u uid txt of
              None \<Rightarrow> True
            | Some s \<Rightarrow>
                requests_after_sent 0 (trace (chat_route create h st uid txt)) = Suc (chunks s)
                \<and> completed (chat_route create h st uid txt) =
                    (ends_normally s
                     \<and> rejects st (InsertMessage uid (concat (fragments s)) False) = None))
       | _ \<Rightarrow> True)"
proof -
  have "requests_after_sent 0 (trace (chat_route create h st uid txt)) = Suc (chunks s)
        \<and> completed (chat_route create h st uid txt) =
            (ends_normally s \<and> rejects st (InsertMessage uid (concat (fragments s)) False) = None)"
    if "getUser st uid = Inr (Some u)" and "opened_stream create st u uid txt = Some s" for u s
    using that requests_of_opened_stream [OF that] by (simp add: completed_iff [OF that(1)])
  then show ?thesis
    using chat_route_ignores_hangup [of create h st uid "txt"]
    by (simp split: sum.splits option.splits)
qed

theorem cancel_still_requests_counterexample:
  "received (res (chat_route (\<lambda>_. Opened hello_stream) (Some 2) demo_store 7 ''hi'')) =
     [ControlRecord \<lparr>m_id = 12, userId = 7, content = ''hi'', fromUser = True\<rparr>, RawText ''Hel'']
   \<and> requests_after_sent 2 (trace (chat_route (\<lambda>_. Opened hello_stream) (Some 2) demo_store 7 ''hi'')) = 3
   \<and> map content (messages (store (chat_route (\<lambda>_. Opened hello_stream) (Some 2) demo_store 7 ''hi'')))
       = [''hi'', ''Hello there'']"
proof -
  let ?run = "chat_route (\<lambda>_. Opened hello_stream) (Some 2) demo_store 7 ''hi''"
  have store: "next_message_id demo_store = 12" "messages demo_store = []"
    by (simp_all add: demo_store_def)
  have run: "?run =
      (case for_await hello_stream (after_user_turn (Some 2) demo_store 7 ''hi'') [] of
         (True, w3, fullResponse) \<Rightarrow>
           (case db_addMessage 7 fullResponse False w3 of
              Inl e \<Rightarrow> on_stream_error w3
            | Inr (twinMessage, w4) \<Rightarrow> res_end None w4)
       | (False, w3, fullResponse) \<Rightarrow> on_stream_error w3)"
    by (simp add: chat_route_accepted [OF demo_getUser demo_accepts] demo_accepts demo_opened)
  have rec: "received (res ?run) =
     [ControlRecord \<lparr>m_id = 12, userId = 7, content = ''hi'', fromUser = True\<rparr>, RawText ''Hel'']"
    unfolding run
    by (simp add: hello_stream_def after_user_turn_def inserted_message_def store requested_def
          res_write_def deliver_def connected_def fresh_response_def res_end_def
          db_addMessage_def addMessage_def demo_accepts Let_def)
  have tr: "trace ?run =
     DbInsert (inserted_message demo_store 7 ''hi'' True)
     # Sent (ControlRecord (inserted_message demo_store 7 ''hi'' True))
     # stream_trace hello_stream
     @ [DbInsert \<lparr>m_id = Suc (next_message_id demo_store), userId = 7,
          content = concat (fragments hello_stream), fromUser = False\<rparr>, Finished]"
    by (rule chat_route_completed(5) [OF demo_getUser demo_opened hello_stream_facts(1) demo_accepts])
  have req: "requests_after_sent 2 (trace ?run) = 3"
    unfolding tr by (simp add: hello_stream_def numeral_2_eq_2)
  have msgs: "map content (messages (store ?run)) = [''hi'', ''Hello there'']"
    unfolding chat_route_completed(4) [OF demo_getUser demo_opened hello_stream_facts(1) demo_accepts]
    by (simp add: hello_stream_facts inserted_message_def store)
  show ?thesis using rec req msgs by simp
qed

section \<open>Profile normalizer: properties\<close>

lemma slice_from_0: "slice 0 (Some (int n)) xs = take n xs"
  by (cases "n \<le> length xs") (simp_all add: slice_def rel_index_def Let_def min_def)

lemma slice_0_numeral: "slice 0 (Some (numeral n)) xs = take (numeral n) xs"
  using slice_from_0 [of "numeral n" xs] by simp

lemma insert_by_count:
  assumes "is_count (snd x)" and "list_all (\<lambda>e. is_count (snd e)) ys"
  shows "insert_by by_count_descending x ys = insort_key count_key x ys"
  using assms
  by (induction ys)
     (auto simp: by_count_descending_def count_key_def is_count_def split: tally.splits)

lemma js_sort_descending:
  assumes "list_all (\<lambda>e. is_count (snd e)) xs"
  shows "js_sort by_count_descending xs = sort_key count_key xs"
  using assms
proof (induction xs)
  case Nil
  then show ?case by (simp add: js_sort_def)
next
  case (Cons x xs)
  then have ih: "foldr (insert_by by_count_descending) xs [] = sort_key count_key xs"
    by (simp add: js_sort_def)
  have "list_all (\<lambda>e. is_count (snd e)) (sort_key count_key xs)"
    using Cons.prems by (simp add: list_all_iff)
  with Cons.prems ih show ?case
    by (simp add: js_sort_def insert_by_count)
qed

lemma Object_entries_no_index:
  assumes "\<forall>p \<in> set props. array_index (fst p) = None"
  shows "Object_entries props = props"
proof -
  have "filter (\<lambda>p. array_index (fst p) \<noteq> None) props = []"
    using assms by (auto simp: filter_empty_conv)
  moreover have "filter (\<lambda>p. array_index (fst p) = None) props = props"
    using assms by (auto simp: filter_id_conv)
  ultimately show ?thesis by (simp add: Object_entries_def)
qed

lemma first_index_less: "x \<in> set xs \<Longrightarrow> first_index xs x < length xs"
  unfolding first_index_def
  by (induction xs) auto

lemma first_index_append_old: "x \<in> set xs \<Longrightarrow> first_index (xs @ ys) x = first_index xs x"
  unfolding first_index_def
  by (induction xs) auto

lemma first_index_append_new: "x \<notin> set xs \<Longrightarrow> first_index (xs @ [x]) x = length xs"
  unfolding first_index_def
  by (induction xs) auto

lemma first_index_inj: "inj_on (first_index xs) (set xs)"
proof (rule inj_onI)
  fix x y assume x: "x \<in> set xs" and y: "y \<in> set xs" and eq: "first_index xs x = first_index xs y"
  have nth: "xs ! first_index xs z = z" if "z \<in> set xs" for z
    using that unfolding first_index_def by (induction xs) auto
  have "x = xs ! first_index xs x" by (simp only: nth [OF x])
  also have "\<dots> = xs ! first_index xs y" by (simp only: eq)
  also have "\<dots> = y" by (simp only: nth [OF y])
  finally show "x = y" .
qed

lemma counted_keys: "counted p freq \<Longrightarrow> set (map fst freq) = set p"
proof -
  assume c: "counted p freq"
  have "fst ` set freq = dom (map_of freq)" by (simp add: dom_map_of_conv_image_fst)
  also have "\<dots> = set p" using c by (auto simp: counted_def dom_def split: if_splits)
  finally show ?thesis by simp
qed

lemma proto_is_inherited: "''__proto__'' \<in> set Object_prototype_names"
  by (simp add: Object_prototype_names_def)

lemma counted_step:
  assumes "counted p freq" and "g \<notin> set Object_prototype_names"
  shows "counted (p @ [g]) (count_genre g freq)"
proof -
  have keys: "set (map fst freq) = set p" by (rule counted_keys [OF assms(1)])
  have d: "distinct (map fst freq)"
    and s: "sorted_wrt (\<lambda>a b. first_index p a < first_index p b) (map fst freq)"
    and m: "\<And>a. map_of freq a = (if a \<in> set p then Some (Count (count_list p a)) else None)"
    using assms(1) by (simp_all add: counted_def)
  have np: "g \<noteq> ''__proto__''"
    using assms(2) proto_is_inherited by auto
  have step: "count_genre g freq = AList.update g (Count (count_list p g + 1)) freq"
    using np assms(2)
    by (simp add: count_genre_def assign_property_def read_property_def plus_one_def m)
  have s': "sorted_wrt (\<lambda>a b. first_index (p @ [g]) a < first_index (p @ [g]) b) (map fst freq)"
  proof (rule sorted_wrt_mono_rel [OF _ s])
    fix a b assume "a \<in> set (map fst freq)" "b \<in> set (map fst freq)"
      and "first_index p a < first_index p b"
    then show "first_index (p @ [g]) a < first_index (p @ [g]) b"
      using keys by (simp add: first_index_append_old)
  qed
  have d2: "distinct (map fst (count_genre g freq))"
    by (simp add: step AList.distinct_update d)
  have s2: "sorted_wrt (\<lambda>a b. first_index (p @ [g]) a < first_index (p @ [g]) b)
              (map fst (count_genre g freq))"
  proof (cases "g \<in> set p")
    case True
    then show ?thesis using s' keys by (simp add: step AList.update_keys)
  next
    case False
    have "first_index (p @ [g]) a < first_index (p @ [g]) g" if "a \<in> set p" for a
      using that False by (simp add: first_index_append_old first_index_append_new first_index_less)
    then have "\<forall>a \<in> set (map fst freq). first_index (p @ [g]) a < first_index (p @ [g]) g"
      using keys by simp
    moreover have "map fst (count_genre g freq) = map fst freq @ [g]"
      using keys False by (simp add: step AList.update_keys)
    ultimately show ?thesis
      using s' by (simp add: sorted_wrt_append)
  qed
  have m2: "map_of (count_genre g freq) a =
      (if a \<in> set (p @ [g]) then Some (Count (count_list (p @ [g]) a)) else None)" for a
    by (simp add: step AList.update_conv' m)
  from d2 s2 m2 show ?thesis by (simp add: counted_def)
qed

lemma counted_fold:
  "counted p freq \<Longrightarrow> \<forall>g \<in> set gs. g \<notin> set Object_prototype_names \<Longrightarrow>
   counted (p @ gs) (fold count_genre gs freq)"
proof (induction gs arbitrary: p freq)
  case Nil
  then show ?case by simp
next
  case (Cons g gs)
  have "counted (p @ [g]) (count_genre g freq)"
    using Cons.prems by (simp add: counted_step)
  from Cons.IH [OF this] Cons.prems(2) show ?case by simp
qed

lemma counted_all:
  "\<forall>g \<in> set gs. g \<notin> set Object_prototype_names \<Longrightarrow> counted gs (fold count_genre gs [])"
  using counted_fold [of "[]" "[]" gs] by (simp add: counted_def)

lemma insort_key_rank:
  fixes k :: "'a \<Rightarrow> int" and i :: "'a \<Rightarrow> nat"
  assumes "sorted (map (\<lambda>e. (k e, i e)) ys)" and "\<forall>y \<in> set ys. i x < i y"
  shows "sorted (map (\<lambda>e. (k e, i e)) (insort_key k x ys))"
  using assms
proof (induction ys)
  case Nil
  then show ?case by simp
next
  case (Cons y ys)
  show ?case
  proof (cases "k x \<le> k y")
    case True
    have "(k x, i x) \<le> (k e, i e)" if "e \<in> set (y # ys)" for e
    proof -
      have "(k y, i y) \<le> (k e, i e)" using Cons.prems(1) that by auto
      then have "k y \<le> k e" by auto
      with True have "k x \<le> k e" by simp
      moreover have "i x < i e" using Cons.prems(2) that by auto
      ultimately show ?thesis by auto
    qed
    with True Cons.prems(1) show ?thesis by auto
  next
    case False
    have ih: "sorted (map (\<lambda>e. (k e, i e)) (insort_key k x ys))"
      using Cons by simp
    have "(k y, i y) \<le> (k e, i e)" if "e \<in> set (insort_key k x ys)" for e
    proof (cases "e = x")
      case True
      then show ?thesis using False by auto
    next
      case False
      then have "e \<in> set ys" using that by (simp add: set_insort_key)
      then show ?thesis using Cons.prems(1) by auto
    qed
    with False ih show ?thesis by auto
  qed
qed

lemma sort_key_rank:
  fixes k :: "'a \<Rightarrow> int" and i :: "'a \<Rightarrow> nat"
  assumes "sorted_wrt (\<lambda>a b. i a < i b) es"
  shows "sorted (map (\<lambda>e. (k e, i e)) (sort_key k es))"
  using assms
proof (induction es)
  case Nil
  then show ?case by simp
next
  case (Cons e es)
  then have "sorted (map (\<lambda>e. (k e, i e)) (sort_key k es))" and "\<forall>y \<in> set (sort_key k es). i e < i y"
    by simp_all
  then show ?case
    by (simp add: insort_key_rank)
qed

lemma favoriteGenres_of_counted:
  assumes "\<forall>g \<in> set gs. array_index g = None \<and> g \<notin> set Object_prototype_names"
  shows "favoriteGenres_of engine_sort (fold count_genre gs []) = ranked_by_frequency gs"
proof -
  let ?freq = "fold count_genre gs []"
  let ?k = "count_key"
  let ?i = "\<lambda>p :: string \<times> tally. first_index gs (fst p)"
  have c: "counted gs ?freq" using assms by (simp add: counted_all)
  have keys: "set (map fst ?freq) = set gs" by (rule counted_keys [OF c])
  have d: "distinct (map fst ?freq)" using c by (simp add: counted_def)
  have val: "snd e = Count (count_list gs (fst e))" if "e \<in> set ?freq" for e
  proof -
    from that d have "map_of ?freq (fst e) = Some (snd e)" by simp
    moreover have "fst e \<in> set gs" using that keys by auto
    ultimately show ?thesis using c by (simp add: counted_def)
  qed
  have numbers: "list_all (\<lambda>e. is_count (snd e)) ?freq"
    by (simp add: list_all_iff val is_count_def)
  have "\<forall>p \<in> set ?freq. array_index (fst p) = None"
    using assms keys by auto
  then have entries: "Object_entries ?freq = ?freq" by (rule Object_entries_no_index)
  let ?sorted = "sort_key ?k ?freq"
  have code: "favoriteGenres_of engine_sort ?freq = take 5 (map fst ?sorted)"
    by (simp add: favoriteGenres_of_def entries sort_entries_def numbers
          js_sort_descending [OF numbers] slice_0_numeral take_map)
  have srt: "sorted_wrt (\<lambda>a b. ?i a < ?i b) ?freq"
    using c by (simp add: counted_def sorted_wrt_map)
  have rank: "map (genre_rank gs) (map fst ?sorted) = map (\<lambda>e. (?k e, ?i e)) ?sorted"
    by (simp add: genre_rank_def val count_key_def)
  have s1: "sorted (map (genre_rank gs) (map fst ?sorted))"
    unfolding rank by (rule sort_key_rank [OF srt])
  have inj: "inj_on (genre_rank gs) (set gs)"
    by (rule inj_onI) (auto simp: genre_rank_def dest: inj_onD [OF first_index_inj])
  have set1: "set (map fst ?sorted) = set gs" using keys by simp
  have d1: "distinct (map fst ?sorted)" using d by (simp add: distinct_map)
  have "sort_key (genre_rank gs) (remdups gs) = map fst ?sorted"
  proof (rule map_sorted_distinct_set_unique [where f = "genre_rank gs"])
    show "inj_on (genre_rank gs) (set (sort_key (genre_rank gs) (remdups gs)) \<union> set (map fst ?sorted))"
      using inj set1 by simp
    show "sorted (map (genre_rank gs) (sort_key (genre_rank gs) (remdups gs)))"
      by simp
    show "distinct (map (genre_rank gs) (sort_key (genre_rank gs) (remdups gs)))"
      using inj by (simp add: distinct_map)
    show "sorted (map (genre_rank gs) (map fst ?sorted))" by (rule s1)
    show "distinct (map (genre_rank gs) (map fst ?sorted))"
    proof (subst distinct_map, intro conjI)
      show "distinct (map fst ?sorted)" by (rule d1)
      show "inj_on (genre_rank gs) (set (map fst ?sorted))" unfolding set1 by (rule inj)
    qed
    show "set (sort_key (genre_rank gs) (remdups gs)) = set (map fst ?sorted)"
      using set1 by simp
  qed
  then show ?thesis by (simp add: code ranked_by_frequency_def)
qed

lemma profile_from_feed:
  assumes "feed_of pu ag px u = Some items"
  shows "getLetterboxdProfile pu ag px pf tr srt u = Inr (profile_of_feed pf tr srt items)"
  using assms
  by (auto simp: feed_of_def getLetterboxdProfile_def getLetterboxdProfile_try_def
           split: if_splits sum.splits fetched.splits xml.splits)

lemma profile_without_feed:
  assumes "feed_of pu ag px u = None"
  shows "\<exists>msg. getLetterboxdProfile pu ag px pf tr srt u = Inr (LError msg) \<and> msg \<noteq> []"
  using assms
  by (auto simp: feed_of_def getLetterboxdProfile_def getLetterboxdProfile_try_def
           split: if_splits sum.splits fetched.splits xml.splits js_error.splits)

lemma processed_Nil: "processed tr [] = []"
  by (simp add: processed_def slice_0_numeral map_filter_simps)

lemma profile_of_feed_cases:
  "profile_of_feed pf tr srt items =
     (if processed tr items = []
      then LError (if items = [] then ''No activity found in profile''
                   else ''No valid ratings found in profile'')
      else LSuccess (take 10 (processed tr items))
                    (favoriteGenres_of srt (genreFrequency tr items))
                    (favoriteFilms_of pf (processed tr items)))"
  by (auto simp: profile_of_feed_def slice_0_numeral processed_Nil)

lemma success_has_feed:
  assumes "getLetterboxdProfile pu ag px pf tr srt u = Inr (LSuccess rr fg ff)"
  shows "\<exists>items. feed_of pu ag px u = Some items \<and> processed tr items \<noteq> []
           \<and> rr = take 10 (processed tr items)
           \<and> fg = favoriteGenres_of srt (genreFrequency tr items)
           \<and> ff = favoriteFilms_of pf (processed tr items)"
proof (cases "feed_of pu ag px u")
  case None
  from profile_without_feed [OF None, of pf tr srt] assms show ?thesis by auto
next
  case (Some items)
  from profile_from_feed [OF Some, of pf tr srt] assms
  have "profile_of_feed pf tr srt items = LSuccess rr fg ff" by simp
  then show ?thesis
    using Some by (auto simp: profile_of_feed_cases split: if_splits)
qed

lemma demo_feed:
  "feed_of demo_parseURL demo_axios (\<lambda>_. Channel items) ''https://letterboxd.com/ada'' = Some items"
  by (simp add: feed_of_def validateLetterboxdUrl_def demo_parseURL_def extractUsername_def
        rssUrl_def demo_axios_def)

lemma three_films_processed:
  "processed trim_stub three_films =
     [\<lparr>title = ''Alien'', rating = ''5/5'', year = ''1979'', genres = []\<rparr>,
      \<lparr>title = ''Heat'', rating = ''4.5/5'', year = ''1995'', genres = []\<rparr>,
      \<lparr>title = ''Cats'', rating = ''3/5'', year = ''2019'', genres = []\<rparr>]"
  by (simp add: processed_def three_films_def slice_0_numeral map_filter_simps processItem_def
        or_default_def item_genres_def)

lemma three_films_favorites:
  "favoriteFilms_of parseFloat_stub (processed trim_stub three_films) = [''Alien'', ''Heat'']"
  by (simp add: three_films_processed favoriteFilms_of_def parseFloat_stub_def slice_0_numeral)

lemma three_films_genres: "genreFrequency trim_stub three_films = []"
  by (simp add: genreFrequency_def three_films_def slice_0_numeral item_genres_def)

lemma three_films_profile:
  "getLetterboxdProfile demo_parseURL demo_axios (\<lambda>_. Channel three_films) parseFloat_stub trim_stub sort_stub
     ''https://letterboxd.com/ada'' =
   Inr (LSuccess (processed trim_stub three_films) [] [''Alien'', ''Heat''])"
proof -
  have "processed trim_stub three_films \<noteq> []" "length (processed trim_stub three_films) \<le> 10"
    by (simp_all add: three_films_processed)
  then show ?thesis
    by (simp add: profile_from_feed [OF demo_feed] profile_of_feed_cases three_films_favorites
          three_films_genres favoriteGenres_of_def Object_entries_def sort_entries_def
          js_sort_def slice_0_numeral)
qed

text \<open>
  Claim C4. For every successful profile fetch, the favorite films are the titles of the
  processed tr items (the titled ones among the first 20 of the feed) whose rating parses to a
  number of at least 4.5, in feed order, cut to the first five. Nothing is sorted.
\<close>

theorem favorites_are_first_high_rated:
  assumes "getLetterboxdProfile pu ag px pf tr srt u = Inr (LSuccess rr fg ff)"
  shows "\<exists>items. feed_of pu ag px u = Some items
           \<and> ff = take 5 (map title (filter (\<lambda>r. number_ge (pf (rating r)) (9 / 2))
                                (List.map_filter (processItem tr) (take 20 items))))"
proof -
  from success_has_feed [OF assms] obtain items
    where "feed_of pu ag px u = Some items" and "ff = favoriteFilms_of pf (processed tr items)"
    by blast
  then show ?thesis
    by (auto simp: favoriteFilms_of_def processed_def slice_0_numeral)
qed

theorem favorites_are_first_high_rated_witness:
  "getLetterboxdProfile demo_parseURL demo_axios (\<lambda>_. Channel three_films) parseFloat_stub trim_stub sort_stub
     ''https://letterboxd.com/ada'' =
   Inr (LSuccess (processed trim_stub three_films) [] [''Alien'', ''Heat''])
   \<and> [''Alien'', ''Heat''] =
       take 5 (map title (filter (\<lambda>r. number_ge (parseFloat_stub (rating r)) (9 / 2))
                            (List.map_filter (processItem trim_stub) (take 20 three_films))))"
  using favorites_are_first_high_rated [OF three_films_profile]
  by (simp add: three_films_profile demo_feed)

lemma tagged_films_genres:
  "genres_seen trim_stub tagged_films = [''A'', ''B'', ''A'', ''C'', ''A'']"
  by (simp add: genres_seen_def tagged_films_def item_genres_def trim_stub_def is_space_def)

lemma tagged_films_processed:
  "processed trim_stub tagged_films =
     [\<lparr>title = ''Alien'', rating = ''Watched'', year = [], genres = [''A'', ''B'']\<rparr>,
      \<lparr>title = ''Heat'', rating = ''Watched'', year = [], genres = [''A'', ''C'']\<rparr>,
      \<lparr>title = ''Cats'', rating = ''Watched'', year = [], genres = [''A'']\<rparr>]"
  by (simp add: processed_def tagged_films_def slice_0_numeral map_filter_simps processItem_def
        or_default_def item_genres_def trim_stub_def is_space_def)

lemma genreFrequency_seen: "genreFrequency tr items = fold count_genre (genres_seen tr items) []"
  by (simp add: genreFrequency_def genres_seen_def slice_0_numeral)

lemma tagged_films_no_index:
  "\<forall>g \<in> set (genres_seen trim_stub tagged_films). array_index g = None \<and> g \<notin> set Object_prototype_names"
  by (simp add: tagged_films_genres array_index_def is_digit_def Object_prototype_names_def)

lemma tagged_films_ranking:
  "ranked_by_frequency [''A'', ''B'', ''A'', ''C'', ''A''] = [''A'', ''B'', ''C'']"
  by (simp add: ranked_by_frequency_def genre_rank_def first_index_def)

lemma tagged_films_profile:
  "getLetterboxdProfile demo_parseURL demo_axios (\<lambda>_. Channel tagged_films) parseFloat_stub trim_stub sort_stub
     ''https://letterboxd.com/ada'' =
   Inr (LSuccess (processed trim_stub tagged_films) [''A'', ''B'', ''C''] [])"
proof -
  have "processed trim_stub tagged_films \<noteq> []" "length (processed trim_stub tagged_films) \<le> 10"
    by (simp_all add: tagged_films_processed)
  moreover have "favoriteFilms_of parseFloat_stub (processed trim_stub tagged_films) = []"
    by (simp add: tagged_films_processed favoriteFilms_of_def parseFloat_stub_def slice_0_numeral)
  moreover have "favoriteGenres_of sort_stub (genreFrequency trim_stub tagged_films) = [''A'', ''B'', ''C'']"
  proof -
    have "favoriteGenres_of sort_stub (genreFrequency trim_stub tagged_films) =
        ranked_by_frequency (genres_seen trim_stub tagged_films)"
      unfolding genreFrequency_seen
      by (rule favoriteGenres_of_counted) (use tagged_films_no_index in blast)
    then show ?thesis by (simp add: tagged_films_genres tagged_films_ranking)
  qed
  ultimately show ?thesis
    by (simp add: profile_from_feed [OF demo_feed] profile_of_feed_cases)
qed

text \<open>
  Claim C5, as the code has it. For every successful profile fetch in which no genre name is
  an array index or a name inherited from \<^verbatim>\<open>Object.prototype\<close>, the favorite genres are
  the genres of the examined items ranked by descending frequency, ties by first-seen order,
  cut to five. The counterexample below has the genres \<^verbatim>\<open>2\<close> and \<^verbatim>\<open>1\<close>, once each, in
  that order: \<^verbatim>\<open>Object.entries\<close> lists index keys first and ascending, and the ranking comes
  out as 1, 2.
\<close>

theorem genres_ranked_by_frequency:
  assumes "getLetterboxdProfile pu ag px pf tr srt u = Inr (LSuccess rr fg ff)"
      and "feed_of pu ag px u = Some items"
      and "\<forall>g \<in> set (genres_seen tr items). array_index g = None \<and> g \<notin> set Object_prototype_names"
  shows "fg = ranked_by_frequency (genres_seen tr items)"
proof -
  from success_has_feed [OF assms(1)] assms(2)
  have "fg = favoriteGenres_of srt (genreFrequency tr items)" by auto
  also have "\<dots> = ranked_by_frequency (genres_seen tr items)"
    using assms(3) by (simp add: genreFrequency_seen favoriteGenres_of_counted)
  finally show ?thesis .
qed

theorem genres_ranked_by_frequency_witness:
  "getLetterboxdProfile demo_parseURL demo_axios (\<lambda>_. Channel tagged_films) parseFloat_stub trim_stub sort_stub
     ''https://letterboxd.com/ada'' =
   Inr (LSuccess (processed trim_stub tagged_films) [''A'', ''B'', ''C''] [])
   \<and> feed_of demo_parseURL demo_axios (\<lambda>_. Channel tagged_films) ''https://letterboxd.com/ada''
       = Some tagged_films
   \<and> genres_seen trim_stub tagged_films = [''A'', ''B'', ''A'', ''C'', ''A'']
   \<and> [''A'', ''B'', ''C''] = ranked_by_frequency (genres_seen trim_stub tagged_films)"
  using genres_ranked_by_frequency [OF tagged_films_profile demo_feed tagged_films_no_index]
  by (simp add: tagged_films_profile demo_feed tagged_films_genres)

lemma numbered_films_processed:
  "processed trim_stub numbered_films =
     [\<lparr>title = ''Alien'', rating = ''Watched'', year = [], genres = [''2'']\<rparr>,
      \<lparr>title = ''Heat'', rating = ''Watched'', year = [], genres = [''1'']\<rparr>]"
  by (simp add: processed_def numbered_films_def slice_0_numeral map_filter_simps processItem_def
        or_default_def item_genres_def trim_stub_def is_space_def)

lemma numbered_films_genres: "genres_seen trim_stub numbered_films = [''2'', ''1'']"
  by (simp add: genres_seen_def numbered_films_def item_genres_def trim_stub_def is_space_def)

lemma numbered_films_favoriteGenres:
  "favoriteGenres_of sort_stub (genreFrequency trim_stub numbered_films) = [''1'', ''2'']"
  by (simp add: genreFrequency_seen numbered_films_genres count_genre_def assign_property_def
        read_property_def plus_one_def Object_prototype_names_def favoriteGenres_of_def
        sort_entries_def is_count_def by_count_descending_def
        Object_entries_def array_index_def is_digit_def decimal_def digit_value_def
        js_sort_def slice_0_numeral)

theorem index_named_genres_counterexample:
  "getLetterboxdProfile demo_parseURL demo_axios (\<lambda>_. Channel numbered_films) parseFloat_stub trim_stub sort_stub
     ''https://letterboxd.com/ada'' =
   Inr (LSuccess (processed trim_stub numbered_films) [''1'', ''2''] [])
   \<and> genres_seen trim_stub numbered_films = [''2'', ''1'']
   \<and> ranked_by_frequency (genres_seen trim_stub numbered_films) = [''2'', ''1'']"
proof -
  have "processed trim_stub numbered_films \<noteq> []" "length (processed trim_stub numbered_films) \<le> 10"
    by (simp_all add: numbered_films_processed)
  moreover have "favoriteFilms_of parseFloat_stub (processed trim_stub numbered_films) = []"
    by (simp add: numbered_films_processed favoriteFilms_of_def parseFloat_stub_def slice_0_numeral)
  ultimately have "getLetterboxdProfile demo_parseURL demo_axios (\<lambda>_. Channel numbered_films)
      parseFloat_stub trim_stub sort_stub ''https://letterboxd.com/ada'' =
      Inr (LSuccess (processed trim_stub numbered_films) [''1'', ''2''] [])"
    by (simp add: profile_from_feed [OF demo_feed] profile_of_feed_cases
          numbered_films_favoriteGenres)
  moreover have "ranked_by_frequency [''2'', ''1''] = [''2'', ''1'']"
    by (simp add: ranked_by_frequency_def genre_rank_def first_index_def)
  ultimately show ?thesis by (simp add: numbered_films_genres)
qed

text \<open>
  Claim C7. For every URL and every behaviour of the URL parser, the HTTP client and the XML
  parser, the profile fetch returns a result and never throws. When no feed was obtained
  (invalid URL, failed request, malformed XML, no channel) or the feed has no titled item
  among its first 20, the result is the error variant with a non-empty message; otherwise
  it is the success variant.
\<close>

theorem profile_fetch_never_throws:
  "\<exists>r. getLetterboxdProfile pu ag px pf tr srt u = Inr r
       \<and> (case feed_of pu ag px u of
             None \<Rightarrow> \<exists>msg. r = LError msg \<and> msg \<noteq> []
           | Some items \<Rightarrow>
               if processed tr items = [] then \<exists>msg. r = LError msg \<and> msg \<noteq> []
               else \<exists>rr fg ff. r = LSuccess rr fg ff)"
proof (cases "feed_of pu ag px u")
  case None
  from profile_without_feed [OF None, of pf tr srt] show ?thesis by (auto simp: None)
next
  case (Some items)
  from profile_from_feed [OF Some, of pf tr srt] show ?thesis
    by (simp add: Some profile_of_feed_cases)
qed

theorem profile_fetch_never_throws_witness:
  "feed_of demo_parseURL failing_axios (\<lambda>_. Channel three_films) ''https://letterboxd.com/ada'' = None
   \<and> getLetterboxdProfile demo_parseURL failing_axios (\<lambda>_. Channel three_films) parseFloat_stub trim_stub sort_stub
       ''https://letterboxd.com/ada'' =
     Inr (LError ''timeout of 10000ms exceeded (AxiosError)'')
   \<and> getLetterboxdProfile demo_parseURL demo_axios (\<lambda>_. XmlError) parseFloat_stub trim_stub sort_stub
       ''not a url'' = Inr (LError ''Invalid Letterboxd URL format'')"
proof -
  have none: "feed_of demo_parseURL failing_axios (\<lambda>_. Channel three_films)
      ''https://letterboxd.com/ada'' = None"
    by (simp add: feed_of_def validateLetterboxdUrl_def demo_parseURL_def extractUsername_def
          failing_axios_def)
  from profile_fetch_never_throws
    [of demo_parseURL failing_axios "\<lambda>_. Channel three_films" parseFloat_stub
        trim_stub sort_stub "''https://letterboxd.com/ada''"]
  obtain msg where "getLetterboxdProfile demo_parseURL failing_axios (\<lambda>_. Channel three_films)
      parseFloat_stub trim_stub sort_stub ''https://letterboxd.com/ada'' = Inr (LError msg)"
    by (auto simp: none)
  moreover have "getLetterboxdProfile demo_parseURL failing_axios (\<lambda>_. Channel three_films)
      parseFloat_stub trim_stub sort_stub ''https://letterboxd.com/ada'' =
      Inr (LError ''timeout of 10000ms exceeded (AxiosError)'')"
    by (simp add: getLetterboxdProfile_def getLetterboxdProfile_try_def validateLetterboxdUrl_def
          demo_parseURL_def extractUsername_def failing_axios_def)
  moreover have "getLetterboxdProfile demo_parseURL demo_axios (\<lambda>_. XmlError) parseFloat_stub trim_stub sort_stub
       ''not a url'' = Inr (LError ''Invalid Letterboxd URL format'')"
    by (simp add: getLetterboxdProfile_def getLetterboxdProfile_try_def validateLetterboxdUrl_def
          demo_parseURL_def)
  ultimately show ?thesis using none by simp
qed

section \<open>Persona synthesizer: properties\<close>

lemma find_fresh:
  "\<forall>u \<in> set xs. \<not> P u \<Longrightarrow> find P (xs @ [y]) = (if P y then Some y else None)"
  by (induction xs) auto

lemma find_map_same_id:
  "(\<And>v. u_id (g v) = u_id v) \<Longrightarrow>
   find (\<lambda>u. u_id u = i) (map g xs) = map_option g (find (\<lambda>u. u_id u = i) xs)"
  by (induction xs) auto

lemma update_row_found:
  assumes "find (\<lambda>u. u_id u = i) (users st) = Some u" and "\<And>v. u_id (f v) = u_id v"
  shows "\<exists>st'. update_row i f st = Inr (f u, st')
           \<and> find (\<lambda>u. u_id u = i) (users st') = Some (f u) \<and> rejects st' = rejects st"
proof -
  let ?g = "\<lambda>v. if u_id v = i then f v else v"
  have g: "u_id (?g v) = u_id v" for v by (simp add: assms(2))
  have id: "u_id u = i" using assms(1) by (auto dest: find_Some_iff [THEN iffD1])
  have "find (\<lambda>u. u_id u = i) (map ?g (users st)) = map_option ?g (find (\<lambda>u. u_id u = i) (users st))"
    by (rule find_map_same_id) (rule g)
  then have "find (\<lambda>u. u_id u = i) (users (st\<lparr>users := map ?g (users st)\<rparr>)) = Some (f u)"
    using assms(1) id by simp
  then show ?thesis
    using assms(1) by (auto simp: update_row_def)
qed

lemma createUser_found:
  assumes "\<forall>u \<in> set (users st). u_id u < next_user_id st"
      and "rejects st (InsertUserRow ins) = None"
  shows "\<exists>u0 st1. createUser st ins = Inr (u0, st1)
           \<and> find (\<lambda>u. u_id u = next_user_id st) (users st1) = Some u0
           \<and> u_id u0 = next_user_id st \<and> twinPersonality u0 = None
           \<and> rejects st1 = rejects st"
proof -
  have "\<forall>u \<in> set (users st). \<not> u_id u = next_user_id st" using assms(1) by auto
  then show ?thesis
    using assms(2) by (simp add: createUser_def Let_def find_fresh)
qed

text \<open>
  Claim C3, as the code has it. Insight synthesis fails exactly when the model call is
  rejected, with the call's error. On a reply with null or empty content it returns the
  empty string, and otherwise the content. The counterexample below is the reply with null
  content, and the one with empty content.
\<close>

theorem insight_of_reply:
  "analyzePersonality create b lb sp =
     (case create (InsightRequest b (movie_part lb) (music_part sp)) of
        Rejected e \<Rightarrow> Inl e
      | Replied None \<Rightarrow> Inr []
      | Replied (Some s) \<Rightarrow> Inr s)"
  by (simp add: analyzePersonality_def or_default_def split: completion.splits option.splits)

theorem empty_insight_counterexample:
  "analyzePersonality silent_create ''reads'' None None = Inr []
   \<and> analyzePersonality (\<lambda>_. Replied (Some [])) ''reads'' None None = Inr []"
  by (simp add: analyzePersonality_def or_default_def silent_create_def)

text \<open>
  Claim C2, as the code has it. Persona synthesis validates no field. It fails exactly when
  one of its two model calls is rejected or the second reply does not parse, with that
  error; otherwise it returns the parsed object with \<^verbatim>\<open>personalityInsight\<close> set to the
  insight text, every other field being as in the reply (present or missing). On a database
  that accepts its calls, the creation route stores exactly the returned object as the
  user's persona; when synthesis fails, the route answers 400 with the error's message and
  the user's persona stays null. The counterexample below is the reply \<^verbatim>\<open>{}\<close>: a persona
  with the insight alone is returned and stored.
\<close>

theorem persona_is_reply_with_insight:
  assumes "\<forall>u \<in> set (users st). u_id u < next_user_id st"
      and "\<forall>c. rejects st c = None"
      and "letterboxd_integration sv userData = Inr lb"
  shows "generateTwinPersonality create parse nm b movies music =
           (case create (InsightRequest b (movie_part movies) (music_part music)) of
              Rejected e \<Rightarrow> Inl e
            | Replied c1 \<Rightarrow>
                (case create (PersonaRequest nm b (movie_part movies) (music_part music)
                               (or_default c1 [])) of
                   Rejected e \<Rightarrow> Inl e
                 | Replied c2 \<Rightarrow>
                     (case JSON_parse parse (or_default c2 ''{}'') of
                        Inl e \<Rightarrow> Inl e
                      | Inr data \<Rightarrow>
                          Inr (AList.update ''personalityInsight''
                                 (JString (or_default c1 [])) data))))
         \<and> (case generateTwinPersonality (completions_create sv) (parse_json sv)
                  (ins_name userData) (ins_bio userData) (only_success lb) None of
               Inl e \<Rightarrow>
                 \<exists>st' u. create_user_route sv st userData = (st', Inl (error_message e))
                         \<and> getUser st' (next_user_id st) = Inr (Some u) \<and> twinPersonality u = None
             | Inr twin \<Rightarrow>
                 (\<exists>st' u. create_user_route sv st userData = (st', Inr u)
                          \<and> getUser st' (next_user_id st) = Inr (Some u)
                          \<and> twinPersonality u = Some twin)
                 \<and> (\<exists>insight c data.
                       analyzePersonality (completions_create sv) (ins_bio userData)
                         (only_success lb) None = Inr insight
                       \<and> completions_create sv
                           (PersonaRequest (ins_name userData) (ins_bio userData)
                              (movie_part (only_success lb)) (music_part None) insight) = Replied c
                       \<and> JSON_parse (parse_json sv) (or_default c ''{}'') = Inr data
                       \<and> twin = AList.update ''personalityInsight'' (JString insight) data
                       \<and> map_of twin ''personalityInsight'' = Some (JString insight)
                       \<and> (\<forall>k. k = ''personalityInsight'' \<or> map_of twin k = map_of data k)))"
proof -
  let ?i = "next_user_id st"
  have eq: "generateTwinPersonality create parse nm b movies music =
           (case create (InsightRequest b (movie_part movies) (music_part music)) of
              Rejected e \<Rightarrow> Inl e
            | Replied c1 \<Rightarrow>
                (case create (PersonaRequest nm b (movie_part movies) (music_part music)
                               (or_default c1 [])) of
                   Rejected e \<Rightarrow> Inl e
                 | Replied c2 \<Rightarrow>
                     (case JSON_parse parse (or_default c2 ''{}'') of
                        Inl e \<Rightarrow> Inl e
                      | Inr data \<Rightarrow>
                          Inr (AList.update ''personalityInsight''
                                 (JString (or_default c1 [])) data))))"
    by (simp add: generateTwinPersonality_def analyzePersonality_def split: completion.splits)
  from createUser_found [OF assms(1), of userData] assms(2)
  obtain u0 st1 where u0: "createUser st userData = Inr (u0, st1)"
      "find (\<lambda>u. u_id u = ?i) (users st1) = Some u0" "u_id u0 = ?i" "twinPersonality u0 = None"
      "rejects st1 = rejects st"
    by auto
  let ?f = "\<lambda>u. u\<lparr>name := ins_name userData, bio := ins_bio userData,
              spotifyUrl := truthy (ins_spotifyUrl userData),
              letterboxdUrl := truthy (ins_letterboxdUrl userData),
              letterboxdData := lb, spotifyData := SNotProvided\<rparr>"
  from update_row_found [OF u0(2), of ?f]
  obtain st2 where st2: "update_row ?i ?f st1 = Inr (?f u0, st2)"
      "find (\<lambda>u. u_id u = ?i) (users st2) = Some (?f u0)" "rejects st2 = rejects st1"
    by auto
  have upd: "updateUser st1 ?i userData lb SNotProvided = Inr (?f u0, st2)"
    using st2(1) u0(5) assms(2) by (simp add: updateUser_def)
  have get2: "getUser st2 ?i = Inr (Some (?f u0))"
    using st2(2,3) u0(5) assms(2) by (simp add: getUser_def)
  have route_part: "case generateTwinPersonality (completions_create sv) (parse_json sv)
                  (ins_name userData) (ins_bio userData) (only_success lb) None of
               Inl e \<Rightarrow>
                 \<exists>st' u. create_user_route sv st userData = (st', Inl (error_message e))
                         \<and> getUser st' (next_user_id st) = Inr (Some u) \<and> twinPersonality u = None
             | Inr twin \<Rightarrow>
                 (\<exists>st' u. create_user_route sv st userData = (st', Inr u)
                          \<and> getUser st' (next_user_id st) = Inr (Some u)
                          \<and> twinPersonality u = Some twin)
                 \<and> (\<exists>insight c data.
                       analyzePersonality (completions_create sv) (ins_bio userData)
                         (only_success lb) None = Inr insight
                       \<and> completions_create sv
                           (PersonaRequest (ins_name userData) (ins_bio userData)
                              (movie_part (only_success lb)) (music_part None) insight) = Replied c
                       \<and> JSON_parse (parse_json sv) (or_default c ''{}'') = Inr data
                       \<and> twin = AList.update ''personalityInsight'' (JString insight) data
                       \<and> map_of twin ''personalityInsight'' = Some (JString insight)
                       \<and> (\<forall>k. k = ''personalityInsight'' \<or> map_of twin k = map_of data k))"
  proof (cases "generateTwinPersonality (completions_create sv) (parse_json sv)
                (ins_name userData) (ins_bio userData) (only_success lb) None")
    case (Inl e)
    then have "create_user_route sv st userData = (st2, Inl (error_message e))"
      using assms(3) u0(1,3) upd by (simp add: create_user_route_def)
    then show ?thesis
      using Inl get2 u0(4) by simp
  next
    case (Inr twin)
    from update_row_found [OF st2(2), of "\<lambda>u. u\<lparr>twinPersonality := Some twin\<rparr>"]
    obtain st3 where st3:
        "update_row ?i (\<lambda>u. u\<lparr>twinPersonality := Some twin\<rparr>) st2 =
           Inr ((?f u0)\<lparr>twinPersonality := Some twin\<rparr>, st3)"
        "find (\<lambda>u. u_id u = ?i) (users st3) = Some ((?f u0)\<lparr>twinPersonality := Some twin\<rparr>)"
        "rejects st3 = rejects st2"
      by auto
    have twin_upd: "updateUserTwin st2 ?i twin = Inr ((?f u0)\<lparr>twinPersonality := Some twin\<rparr>, st3)"
      using st3(1) st2(3) u0(5) assms(2) by (simp add: updateUserTwin_def)
    have get3: "getUser st3 ?i = Inr (Some ((?f u0)\<lparr>twinPersonality := Some twin\<rparr>))"
      using st3(2,3) st2(3) u0(5) assms(2) by (simp add: getUser_def)
    have route: "create_user_route sv st userData =
        (st3, Inr ((?f u0)\<lparr>twinPersonality := Some twin\<rparr>))"
      using assms(3) u0(1,3) upd twin_upd Inr by (simp add: create_user_route_def)
    from Inr obtain insight c data where parts:
      "analyzePersonality (completions_create sv) (ins_bio userData) (only_success lb) None = Inr insight"
      "completions_create sv (PersonaRequest (ins_name userData) (ins_bio userData)
          (movie_part (only_success lb)) (music_part None) insight) = Replied c"
      "JSON_parse (parse_json sv) (or_default c ''{}'') = Inr data"
      "twin = AList.update ''personalityInsight'' (JString insight) data"
      by (auto simp: generateTwinPersonality_def split: sum.splits completion.splits)
    have "map_of twin ''personalityInsight'' = Some (JString insight)"
      and "\<forall>k. k = ''personalityInsight'' \<or> map_of twin k = map_of data k"
      by (simp_all add: parts(4) AList.update_conv')
    with parts route get3 Inr show ?thesis by auto
  qed
  from eq route_part show ?thesis by (rule conjI)
qed

lemma demo_persona:
  "generateTwinPersonality demo_create (parse_json demo_services) ''Ada'' ''reads'' None None =
     Inr [(''personalityInsight'', JString ''curious'')]"
  by (simp add: generateTwinPersonality_def analyzePersonality_def demo_create_def movie_part_def
        music_part_def or_default_def JSON_parse_def)

lemma demo_integration: "letterboxd_integration demo_services ada = Inr LNotProvided"
  by (simp add: letterboxd_integration_def ada_def truthy_def)

theorem persona_is_reply_with_insight_witness:
  "users new_store = []
   \<and> rejects new_store (InsertUserRow ada) = None
   \<and> letterboxd_integration demo_services ada = Inr LNotProvided
   \<and> generateTwinPersonality demo_create (parse_json demo_services) ''Ada'' ''reads'' None None =
       Inr [(''personalityInsight'', JString ''curious'')]
   \<and> (\<exists>st' u. create_user_route demo_services new_store ada = (st', Inr u)
         \<and> getUser st' 7 = Inr (Some u)
         \<and> twinPersonality u = Some [(''personalityInsight'', JString ''curious'')])"
proof -
  have fresh: "\<forall>u \<in> set (users new_store). u_id u < next_user_id new_store"
    by (simp add: new_store_def)
  have accepts: "\<forall>c. rejects new_store c = None"
    by (simp add: new_store_def)
  have persona: "generateTwinPersonality (completions_create demo_services) (parse_json demo_services)
      (ins_name ada) (ins_bio ada) (only_success LNotProvided) None =
      Inr [(''personalityInsight'', JString ''curious'')]"
    using demo_persona by (simp add: demo_services_def ada_def only_success_def)
  have next_id: "next_user_id new_store = 7"
    by (simp add: new_store_def)
  from persona_is_reply_with_insight [OF fresh accepts demo_integration,
      of demo_create "parse_json demo_services" "''Ada''" "''reads''" None None]
  have "\<exists>st' u. create_user_route demo_services new_store ada = (st', Inr u)
         \<and> getUser st' 7 = Inr (Some u)
         \<and> twinPersonality u = Some [(''personalityInsight'', JString ''curious'')]"
    unfolding persona next_id by simp
  then show ?thesis using demo_integration demo_persona accepts by (simp add: new_store_def)
qed

theorem partial_persona_counterexample:
  "generateTwinPersonality demo_create (parse_json demo_services) ''Ada'' ''reads'' None None =
     Inr [(''personalityInsight'', JString ''curious'')]
   \<and> map_of [(''personalityInsight'', JString ''curious'')] ''interests'' = None
   \<and> map_sum id (map_option twinPersonality)
       (getUser (fst (create_user_route demo_services new_store ada)) 7) =
       Inr (Some (Some [(''personalityInsight'', JString ''curious'')]))"
proof -
  have persona: "generateTwinPersonality (completions_create demo_services) (parse_json demo_services)
      (ins_name ada) (ins_bio ada) (only_success LNotProvided) None =
      Inr [(''personalityInsight'', JString ''curious'')]"
    using demo_persona by (simp add: demo_services_def ada_def only_success_def)
  have "map_sum id (map_option twinPersonality)
       (getUser (fst (create_user_route demo_services new_store ada)) 7) =
       Inr (Some (Some [(''personalityInsight'', JString ''curious'')]))"
    by (simp add: create_user_route_def demo_integration persona createUser_def updateUser_def
          updateUserTwin_def update_row_def getUser_def new_store_def Let_def)
  then show ?thesis using demo_persona by simp
qed

end
